theory Spec2Isabelle
  imports Complex_Main "HOL-Library.Multiset" "HOL-Library.List_Lexorder" "HOL-Library.Sublist"
begin

section \<open>Strings, maps and sorting as the TypeScript code uses them\<close>

text \<open>
  A JavaScript string is a sequence of UTF-16 code units; \<open>===\<close>, \<open><\<close>, \<open>includes\<close>,
  \<open>length\<close> and the regular expressions of the source (none has the \<open>u\<close> flag) all work on
  code units. A string is therefore a list of code units, given as natural numbers, and
  \<open><\<close> on strings is the lexicographic order of \<open>HOL-Library.List_Lexorder\<close>.
  \<open>str\<close> turns an Isabelle literal into such a string.

  \<open>String.prototype.toLowerCase\<close> and \<open>String.prototype.normalize('NFD')\<close> are built-ins
  of the language whose Unicode tables are not part of the repository: every function
  that calls them takes them as the parameters \<open>lc\<close> and \<open>nfd\<close>. \<open>asciiLower\<close> and
  \<open>latinNFD\<close> below agree with the built-ins on the strings used in the concrete examples.
\<close>

type_synonym jsstring = "nat list"

definition str :: "string \<Rightarrow> jsstring" where
  "str s = map of_char s"

definition asciiLowerUnit :: "nat \<Rightarrow> nat" where
  "asciiLowerUnit c = (if 65 \<le> c \<and> c \<le> 90 then c + 32 else c)"

definition asciiLower :: "jsstring \<Rightarrow> jsstring" where
  "asciiLower s = map asciiLowerUnit s"

text \<open>\<open>s.includes(t)\<close>: \<open>t\<close> occurs in \<open>s\<close> as a contiguous run of code units.\<close>

fun str_includes :: "'a list \<Rightarrow> 'a list \<Rightarrow> bool" where
  "str_includes [] t = (t = [])"
| "str_includes (c # s) t = (prefix t (c # s) \<or> str_includes s t)"

text \<open>
  A JavaScript \<open>Map\<close> iterates in the order of first insertion of each key, and \<open>set\<close> on
  a key already present replaces the value where the key stands. It is an association
  list with that \<open>set\<close>.
\<close>

type_synonym ('k, 'v) jsmap = "('k \<times> 'v) list"

fun map_set :: "'k \<Rightarrow> 'v \<Rightarrow> ('k, 'v) jsmap \<Rightarrow> ('k, 'v) jsmap" where
  "map_set k v [] = [(k, v)]"
| "map_set k v ((k', v') # m) = (if k' = k then (k, v) # m else (k', v') # map_set k v m)"

definition map_has :: "('k, 'v) jsmap \<Rightarrow> 'k \<Rightarrow> bool" where
  "map_has m k = (map_of m k \<noteq> None)"

definition map_get :: "('k, 'v) jsmap \<Rightarrow> 'k \<Rightarrow> 'v option" where
  "map_get m k = map_of m k"

text \<open>
  \<open>Array.prototype.sort\<close> is stable, and with a consistent comparator (the comparator
  of the items of a corridor and the one of the search are consistent) its result is the one stable
  arrangement in which no element is followed by one the comparator puts before it. That
  arrangement is computed here by insertion from the right: an element goes in front of
  the first later element it does not compare greater than.
\<close>

fun insert_sorted :: "('a \<Rightarrow> 'a \<Rightarrow> 'n::linordered_idom) \<Rightarrow> 'a \<Rightarrow> 'a list \<Rightarrow> 'a list" where
  "insert_sorted cmp x [] = [x]"
| "insert_sorted cmp x (y # ys) =
     (if cmp x y \<le> 0 then x # y # ys else y # insert_sorted cmp x ys)"

definition array_sort :: "('a \<Rightarrow> 'a \<Rightarrow> 'n::linordered_idom) \<Rightarrow> 'a list \<Rightarrow> 'a list" where
  "array_sort cmp xs = foldr (insert_sorted cmp) xs []"

text \<open>
  The sort reads the result of the comparator through \<open>SortCompare\<close>, which returns
  \<open>+0\<close> when the result is \<open>NaN\<close> (\<open>None\<close> here). A comparator that returns \<open>NaN\<close> is not
  consistent, and the standard then leaves the order to the implementation; the
  insertion above keeps two elements in their order when their comparison is \<open>NaN\<close>, as
  every stable implementation does for an array of two elements.
\<close>

definition sortCompare :: "'n option \<Rightarrow> 'n::zero" where
  "sortCompare v = (case v of None \<Rightarrow> 0 | Some x \<Rightarrow> x)"

section \<open>The catalog and the product index (OptimizedShoppingPath.tsx)\<close>

text \<open>
  The catalog has the shape of the interfaces \<open>ArticleData\<close>, \<open>GangSection\<close>,
  \<open>SectionData\<close>, \<open>Positions\<close> and \<open>Categories\<close>: an object is the list of its
  \<open>Object.entries\<close>, in their order. A value of a \<open>GangSection\<close> is a \<open>StringArray\<close> or a
  \<open>SectionData\<close>.
\<close>

type_synonym Categories = "(jsstring \<times> jsstring list) list"

type_synonym Positions = "(jsstring \<times> Categories) list"

record SectionData =
  categories :: "Categories option"
  positions :: "Positions option"

datatype GangValue = StringArray "jsstring list" | Section SectionData

type_synonym GangSection = "(jsstring \<times> GangValue) list"

type_synonym ArticleData = "(jsstring \<times> GangSection) list"

text \<open>
  What \<open>corridorDistances[c]\<close> can be: \<open>undefined\<close>, a number of the table, or a
  member that the object literal inherits from \<open>Object.prototype\<close> (a function, or for
  \<open>__proto__\<close> the prototype object itself).
\<close>

datatype property = Undefined | Num int | Inherited

record Location =
  corridor :: jsstring
  direction :: jsstring
  position :: jsstring
  category :: jsstring
  distanceFromStart :: property

definition corridorDistances :: "(jsstring \<times> int) list" where
  "corridorDistances =
     [(str ''Seiten M'', 1), (str ''Gang 1'', 2), (str ''Gang 2'', 3), (str ''Gang 3'', 4),
      (str ''Gang 4'', 5), (str ''Gang 5'', 6), (str ''Gang 6'', 7)]"

text \<open>
  \<open>corridorDistances\<close> is an object literal, so a property access finds its own seven
  keys and, for any other name, the members of \<open>Object.prototype\<close>; these are the names
  of the members (those of the standard and of its Annex B).
\<close>

definition objectPrototypeNames :: "jsstring list" where
  "objectPrototypeNames =
     [str ''constructor'', str ''__defineGetter__'', str ''__defineSetter__'',
      str ''hasOwnProperty'', str ''__lookupGetter__'', str ''__lookupSetter__'',
      str ''isPrototypeOf'', str ''propertyIsEnumerable'', str ''toString'', str ''valueOf'',
      str ''__proto__'', str ''toLocaleString'']"

definition distanceOf :: "jsstring \<Rightarrow> property" where
  "distanceOf c =
     (case map_of corridorDistances c of
        Some d \<Rightarrow> Num d
      | None \<Rightarrow> if c \<in> set objectPrototypeNames then Inherited else Undefined)"

text \<open>
  \<open>v || 0\<close>: \<open>undefined\<close> and the number 0 are falsy, a function or an object is truthy.
\<close>

definition orZero :: "property \<Rightarrow> property" where
  "orZero v = (case v of Undefined \<Rightarrow> Num 0 | Num d \<Rightarrow> Num d | Inherited \<Rightarrow> Inherited)"

text \<open>
  \<open>a - b\<close> converts both operands to numbers; a function, an object and \<open>undefined\<close>
  convert to \<open>NaN\<close>, and so the difference is \<open>NaN\<close>, which is \<open>None\<close> here.
\<close>

definition minusNumber :: "property \<Rightarrow> property \<Rightarrow> int option" where
  "minusNumber a b = (case (a, b) of (Num x, Num y) \<Rightarrow> Some (x - y) | _ \<Rightarrow> None)"

datatype error = TypeError

type_synonym ProductLocations = "(jsstring, Location) jsmap"

text \<open>\<open>products.forEach(product => this.productLocations.set(product.toLowerCase(), loc))\<close>\<close>

definition setProducts ::
  "(jsstring \<Rightarrow> jsstring) \<Rightarrow> Location \<Rightarrow> jsstring list \<Rightarrow> ProductLocations \<Rightarrow> ProductLocations" where
  "setProducts lc loc products m = fold (\<lambda>product m'. map_set (lc product) loc m') products m"

definition setCategories ::
  "(jsstring \<Rightarrow> jsstring) \<Rightarrow> jsstring \<Rightarrow> jsstring \<Rightarrow> jsstring \<Rightarrow> Categories \<Rightarrow>
   ProductLocations \<Rightarrow> ProductLocations" where
  "setCategories lc c d p cats m =
     fold (\<lambda>(cat, products) m'.
             setProducts lc \<lparr>corridor = c, direction = d, position = p, category = cat,
                             distanceFromStart = distanceOf c\<rparr> products m')
          cats m"

text \<open>
  The branch for \<open>"Seiten M"\<close> calls \<open>products.forEach\<close> on every value of the corridor;
  on a value that is not an array this throws a \<open>TypeError\<close>, which ends the constructor.
\<close>

fun indexSeitenM ::
  "(jsstring \<Rightarrow> jsstring) \<Rightarrow> jsstring \<Rightarrow> GangSection \<Rightarrow> ProductLocations \<Rightarrow> error + ProductLocations" where
  "indexSeitenM lc c [] m = Inr m"
| "indexSeitenM lc c ((cat, StringArray products) # rest) m =
     indexSeitenM lc c rest
       (setProducts lc \<lparr>corridor = c, direction = [], position = [], category = cat,
                        distanceFromStart = distanceOf c\<rparr> products m)"
| "indexSeitenM lc c ((cat, Section sd) # rest) m = Inl TypeError"

text \<open>
  In the other branch \<open>directionData.positions\<close> and \<open>directionData.categories\<close> are
  \<open>undefined\<close> on an array, so a \<open>StringArray\<close> value adds nothing; on a \<open>SectionData\<close> the
  positioned categories are indexed first, then the full-width ones.
\<close>

definition indexDirection ::
  "(jsstring \<Rightarrow> jsstring) \<Rightarrow> jsstring \<Rightarrow> jsstring \<times> GangValue \<Rightarrow> ProductLocations \<Rightarrow> ProductLocations" where
  "indexDirection lc c dv m =
     (case dv of
        (d, StringArray _) \<Rightarrow> m
      | (d, Section sd) \<Rightarrow>
          (let m1 = (case positions sd of
                       None \<Rightarrow> m
                     | Some ps \<Rightarrow> fold (\<lambda>(p, cats) m'. setCategories lc c d p cats m') ps m)
           in case categories sd of
                None \<Rightarrow> m1
              | Some cats \<Rightarrow> setCategories lc c d [] cats m1))"

fun createProductIndex ::
  "(jsstring \<Rightarrow> jsstring) \<Rightarrow> ArticleData \<Rightarrow> ProductLocations \<Rightarrow> error + ProductLocations" where
  "createProductIndex lc [] m = Inr m"
| "createProductIndex lc ((c, corridorData) # rest) m =
     (if c = str ''Seiten M''
      then (case indexSeitenM lc c corridorData m of
              Inl e \<Rightarrow> Inl e
            | Inr m' \<Rightarrow> createProductIndex lc rest m')
      else createProductIndex lc rest (fold (indexDirection lc c) corridorData m))"

text \<open>The constructor: the index starts as an empty \<open>Map\<close>.\<close>

definition newStoreOptimizer :: "(jsstring \<Rightarrow> jsstring) \<Rightarrow> ArticleData \<Rightarrow> error + ProductLocations" where
  "newStoreOptimizer lc storeData = createProductIndex lc storeData []"

section \<open>The path optimizer (OptimizedShoppingPath.tsx)\<close>

definition findProductLocation ::
  "(jsstring \<Rightarrow> jsstring) \<Rightarrow> ProductLocations \<Rightarrow> jsstring \<Rightarrow> Location option \<times> bool" where
  "findProductLocation lc m product =
     (let productLower = lc product
      in if map_has m productLower then (map_get m productLower, True)
         else (case find (\<lambda>(storedProduct, location).
                            str_includes productLower storedProduct \<or> str_includes storedProduct productLower) m of
                 Some (storedProduct, location) \<Rightarrow> (Some location, True)
               | None \<Rightarrow> (None, False)))"

type_synonym LocatedItem = "jsstring \<times> Location"

definition organizeItemsByCorridor :: "LocatedItem list \<Rightarrow> (jsstring, LocatedItem list) jsmap" where
  "organizeItemsByCorridor its =
     fold (\<lambda>(item, location) corridorItems.
             (let ci = (if \<not> map_has corridorItems (corridor location)
                        then map_set (corridor location) [] corridorItems else corridorItems)
              in case map_get ci (corridor location) of
                   Some xs \<Rightarrow> map_set (corridor location) (xs @ [(item, location)]) ci
                 | None \<Rightarrow> ci))
          its []"

text \<open>
  The comparator of both \<open>sort\<close> calls on the corridor names, and the sorted keys of the
  grouping.
\<close>

definition compareCorridors :: "jsstring \<Rightarrow> jsstring \<Rightarrow> int option" where
  "compareCorridors a b = minusNumber (orZero (distanceOf a)) (orZero (distanceOf b))"

definition sortedCorridors :: "(jsstring, LocatedItem list) jsmap \<Rightarrow> jsstring list" where
  "sortedCorridors corridorItems =
     array_sort (\<lambda>a b. sortCompare (compareCorridors a b)) (map fst corridorItems)"

datatype point = East | West

text \<open>\<open>!loc.position\<close> holds for the empty string.\<close>

definition eastCount :: "LocatedItem list \<Rightarrow> nat" where
  "eastCount its = length (filter (\<lambda>(_, loc). position loc = str ''E'' \<or> position loc = []) its)"

definition westCount :: "LocatedItem list \<Rightarrow> nat" where
  "westCount its = length (filter (\<lambda>(_, loc). position loc = str ''W'' \<or> position loc = []) its)"

text \<open>
  One round of the \<open>forEach\<close> of \<open>determineCorridorEntryPoints\<close>; the state is the map
  \<open>entryPoints\<close> and \<open>currentPosition\<close>. The counts are integers, so \<open>a > b * 1.5\<close> is
  exact.
\<close>

definition entryStep ::
  "(jsstring, LocatedItem list) jsmap \<Rightarrow> jsstring \<Rightarrow> (jsstring, bool) jsmap \<times> point \<Rightarrow>
   (jsstring, bool) jsmap \<times> point" where
  "entryStep corridorItems c st =
     (case st of (entryPoints, currentPosition) \<Rightarrow>
        if c = str ''Seiten M'' then (map_set c True entryPoints, currentPosition)
        else
          (let its = (case map_get corridorItems c of Some xs \<Rightarrow> xs | None \<Rightarrow> []);
               eastItems = eastCount its;
               westItems = westCount its;
               fromEast = (if real eastItems > real westItems * 1.5 then True
                           else if real westItems > real eastItems * 1.5 then False
                           else currentPosition = East)
           in (map_set c fromEast entryPoints, if fromEast then West else East)))"

definition determineCorridorEntryPoints ::
  "(jsstring, LocatedItem list) jsmap \<Rightarrow> (jsstring, bool) jsmap" where
  "determineCorridorEntryPoints corridorItems =
     fst (fold (entryStep corridorItems) (sortedCorridors corridorItems) ([], East))"

record ItemLocation =
  loc_corridor :: jsstring
  loc_direction :: jsstring
  loc_position :: jsstring
  side :: jsstring

record PathItem =
  item_name :: jsstring
  item_category :: jsstring
  item_location :: ItemLocation

record CorridorPath =
  name :: jsstring
  entryPoint :: point
  exitPoint :: point
  items :: "PathItem list"

record OptimizedPath =
  corridors :: "CorridorPath list"
  notFoundItems :: "jsstring list"

text \<open>The comparator of \<open>items.sort\<close>: by category, then by side for the entry direction.\<close>

definition compareItems :: "bool \<Rightarrow> LocatedItem \<Rightarrow> LocatedItem \<Rightarrow> int" where
  "compareItems fromEast a b =
     (let locA = snd a; locB = snd b
      in if category locA < category locB then - 1
         else if category locA > category locB then 1
         else (let aSide = (if fromEast then direction locA = str ''N'' else direction locA = str ''S'');
                   bSide = (if fromEast then direction locB = str ''N'' else direction locB = str ''S'')
               in if aSide = bSide then 0 else if aSide then - 1 else 1))"

definition toPathItem :: "LocatedItem \<Rightarrow> PathItem" where
  "toPathItem it =
     (case it of (nm, location) \<Rightarrow>
        \<lparr>item_name = nm, item_category = category location,
         item_location = \<lparr>loc_corridor = corridor location, loc_direction = direction location,
                          loc_position = position location,
                          side = (if direction location = str ''N'' then str ''Right'' else str ''Left'')\<rparr>\<rparr>)"

text \<open>
  \<open>entryPoints.get(corridor)!\<close> is \<open>undefined\<close>, which is falsy, for a key that was never
  set; \<open>corridorItems.get(corridor)!\<close> is read for keys of the map only.
\<close>

definition corridorPath ::
  "(jsstring, LocatedItem list) jsmap \<Rightarrow> (jsstring, bool) jsmap \<Rightarrow> jsstring \<Rightarrow> CorridorPath" where
  "corridorPath corridorItems entryPoints c =
     (let its = (case map_get corridorItems c of Some xs \<Rightarrow> xs | None \<Rightarrow> []);
          fromEast = (case map_get entryPoints c of Some b \<Rightarrow> b | None \<Rightarrow> False);
          sortedItems = array_sort (compareItems fromEast) its
      in \<lparr>name = c,
          entryPoint = (if fromEast then East else West),
          exitPoint = (if fromEast then West else East),
          items = map toPathItem sortedItems\<rparr>)"

text \<open>The first \<open>forEach\<close> of \<open>optimizeShoppingPath\<close>: one entry of the shopping list.\<close>

definition locateStep ::
  "(jsstring \<Rightarrow> jsstring) \<Rightarrow> ProductLocations \<Rightarrow> jsstring \<Rightarrow> LocatedItem list \<times> jsstring list \<Rightarrow>
   LocatedItem list \<times> jsstring list" where
  "locateStep lc m item st =
     (case st of (itemsWithLocations, notFound) \<Rightarrow>
        (case findProductLocation lc m item of
           (Some location, True) \<Rightarrow> (itemsWithLocations @ [(item, location)], notFound)
         | _ \<Rightarrow> (itemsWithLocations, notFound @ [item])))"

definition optimizeShoppingPath ::
  "(jsstring \<Rightarrow> jsstring) \<Rightarrow> ProductLocations \<Rightarrow> jsstring list \<Rightarrow> OptimizedPath" where
  "optimizeShoppingPath lc m shoppingList =
     (case fold (locateStep lc m) shoppingList ([], []) of
        (itemsWithLocations, notFound) \<Rightarrow>
          (let corridorItems = organizeItemsByCorridor itemsWithLocations;
               entryPoints = determineCorridorEntryPoints corridorItems
           in \<lparr>corridors = map (corridorPath corridorItems entryPoints) (sortedCorridors corridorItems),
               notFoundItems = notFound\<rparr>))"

text \<open>
  The component \<open>OptimizedShoppingPath\<close> constructs the optimizer from the catalog and
  asks it for the path of the texts of the items; an exception of the constructor leaves
  no path.
\<close>

definition optimizedPathOf ::
  "(jsstring \<Rightarrow> jsstring) \<Rightarrow> ArticleData \<Rightarrow> jsstring list \<Rightarrow> error + OptimizedPath" where
  "optimizedPathOf lc storeData texts =
     (case newStoreOptimizer lc storeData of
        Inl e \<Rightarrow> Inl e
      | Inr optimizer \<Rightarrow> Inr (optimizeShoppingPath lc optimizer texts))"

section \<open>The second optimizer (StoreLayoutVisual.tsx)\<close>

text \<open>
  \<open>buildProductLocationMap\<close> reads the keys \<open>N\<close> and \<open>S\<close> only, in that order, and the
  full-width categories before the positioned ones; its locations have no
  \<open>distanceFromStart\<close>, which reads as \<open>undefined\<close>.
\<close>

definition setCategories_visual ::
  "(jsstring \<Rightarrow> jsstring) \<Rightarrow> jsstring \<Rightarrow> jsstring \<Rightarrow> jsstring \<Rightarrow> Categories \<Rightarrow>
   ProductLocations \<Rightarrow> ProductLocations" where
  "setCategories_visual lc c d p cats m =
     fold (\<lambda>(cat, products) m'.
             setProducts lc \<lparr>corridor = c, direction = d, position = p, category = cat,
                             distanceFromStart = Undefined\<rparr> products m')
          cats m"

fun indexSeitenM_visual ::
  "(jsstring \<Rightarrow> jsstring) \<Rightarrow> jsstring \<Rightarrow> GangSection \<Rightarrow> ProductLocations \<Rightarrow> error + ProductLocations" where
  "indexSeitenM_visual lc c [] m = Inr m"
| "indexSeitenM_visual lc c ((cat, StringArray products) # rest) m =
     indexSeitenM_visual lc c rest
       (setProducts lc \<lparr>corridor = c, direction = [], position = [], category = cat,
                        distanceFromStart = Undefined\<rparr> products m)"
| "indexSeitenM_visual lc c ((cat, Section sd) # rest) m = Inl TypeError"

definition indexDirection_visual ::
  "(jsstring \<Rightarrow> jsstring) \<Rightarrow> jsstring \<Rightarrow> GangSection \<Rightarrow> jsstring \<Rightarrow> ProductLocations \<Rightarrow> ProductLocations" where
  "indexDirection_visual lc c corridorData d m =
     (case map_of corridorData d of
        None \<Rightarrow> m
      | Some (StringArray _) \<Rightarrow> m
      | Some (Section sd) \<Rightarrow>
          (let m1 = (case categories sd of
                       None \<Rightarrow> m
                     | Some cats \<Rightarrow> setCategories_visual lc c d [] cats m)
           in case positions sd of
                None \<Rightarrow> m1
              | Some ps \<Rightarrow> fold (\<lambda>(p, cats) m'. setCategories_visual lc c d p cats m') ps m1))"

fun buildProductLocationMap ::
  "(jsstring \<Rightarrow> jsstring) \<Rightarrow> ArticleData \<Rightarrow> ProductLocations \<Rightarrow> error + ProductLocations" where
  "buildProductLocationMap lc [] m = Inr m"
| "buildProductLocationMap lc ((c, corridorData) # rest) m =
     (if c = str ''Seiten M''
      then (case indexSeitenM_visual lc c corridorData m of
              Inl e \<Rightarrow> Inl e
            | Inr m' \<Rightarrow> buildProductLocationMap lc rest m')
      else buildProductLocationMap lc rest
             (fold (indexDirection_visual lc c corridorData) [str ''N'', str ''S''] m))"

definition findProductLocation_visual ::
  "(jsstring \<Rightarrow> jsstring) \<Rightarrow> ProductLocations \<Rightarrow> jsstring \<Rightarrow> Location option" where
  "findProductLocation_visual lc m product =
     (let productLower = lc product
      in if map_has m productLower then map_get m productLower
         else (case find (\<lambda>(storedProduct, location).
                            str_includes productLower storedProduct \<or> str_includes storedProduct productLower) m of
                 Some (storedProduct, location) \<Rightarrow> Some location
               | None \<Rightarrow> None))"

text \<open>
  The \<open>forEach\<close> over the sorted corridors with its look-ahead: \<open>rest\<close> holds the
  corridors after the current one, so \<open>sortedCorridors[index + 1]\<close> is its head, and
  \<open>nextCorridor && ...\<close> is false for no next corridor and for the empty name. Both
  branches of the last \<open>if\<close> of the source assign the same value.
\<close>

fun entryPoints_visual ::
  "(jsstring, LocatedItem list) jsmap \<Rightarrow> jsstring list \<Rightarrow> (jsstring, bool) jsmap \<times> point \<Rightarrow>
   (jsstring, bool) jsmap \<times> point" where
  "entryPoints_visual corridorItems [] st = st"
| "entryPoints_visual corridorItems (c # rest) (entryPoints, currentPosition) =
     (if c = str ''Seiten M''
      then entryPoints_visual corridorItems rest (map_set c True entryPoints, West)
      else
        (let its = (case map_get corridorItems c of Some xs \<Rightarrow> xs | None \<Rightarrow> []);
             eastItems = eastCount its;
             westItems = westCount its;
             enterFromEast =
               (if real eastItems > real westItems * 2 then True
                else if real westItems > real eastItems * 2 then False
                else (case rest of
                        [] \<Rightarrow> currentPosition = East
                      | nextCorridor # _ \<Rightarrow>
                          if nextCorridor \<noteq> [] \<and> nextCorridor \<noteq> str ''Seiten M''
                          then (case map_get corridorItems nextCorridor of
                                  Some nextItems \<Rightarrow>
                                    if real (eastCount nextItems) > real (westCount nextItems) * 1.5
                                    then currentPosition = West
                                    else if real (westCount nextItems) > real (eastCount nextItems) * 1.5
                                    then currentPosition = East
                                    else currentPosition = East
                                | None \<Rightarrow> currentPosition = East)
                          else currentPosition = East));
             currentPosition' =
               (if \<bar>int eastItems - int westItems\<bar> \<le> 1
                then (if enterFromEast then West else East)
                else (if enterFromEast then West else East))
         in entryPoints_visual corridorItems rest (map_set c enterFromEast entryPoints, currentPosition')))"

text \<open>
  \<open>optimizeShoppingPath\<close> of this class groups the located items with the statements of
  \<open>organizeItemsByCorridor\<close>, written inline, sorts the corridors with the same comparator
  over a table of its own with the same entries, and returns the name, the entry point
  and the exit point of each corridor; it keeps no list of the items not found.
\<close>

record VisualStep =
  vname :: jsstring
  ventryPoint :: point
  vexitPoint :: point

definition optimizeShoppingPath_visual ::
  "(jsstring \<Rightarrow> jsstring) \<Rightarrow> ProductLocations \<Rightarrow> jsstring list \<Rightarrow> VisualStep list" where
  "optimizeShoppingPath_visual lc m shoppingList =
     (let itemsWithLocations =
            fold (\<lambda>item acc. case findProductLocation_visual lc m item of
                                Some location \<Rightarrow> acc @ [(item, location)]
                              | None \<Rightarrow> acc)
                 shoppingList [];
          corridorItems = organizeItemsByCorridor itemsWithLocations;
          sorted_cs = sortedCorridors corridorItems;
          entryPoints = fst (entryPoints_visual corridorItems sorted_cs ([], East))
      in map (\<lambda>c. (let e = (case map_get entryPoints c of Some b \<Rightarrow> b | None \<Rightarrow> False)
                    in \<lparr>vname = c,
                        ventryPoint = (if e then East else West),
                        vexitPoint = (if e then West else East)\<rparr>))
             sorted_cs)"

section \<open>The fuzzy matcher (App.tsx)\<close>

text \<open>
  The class \<open>\s\<close> of a JavaScript regular expression, which is also what \<open>trim\<close> removes:
  the white space and line terminator code points.
\<close>

definition isWhiteSpace :: "nat \<Rightarrow> bool" where
  "isWhiteSpace c =
     (c = 0x9 \<or> c = 0xA \<or> c = 0xB \<or> c = 0xC \<or> c = 0xD \<or> c = 0x20 \<or> c = 0xA0 \<or> c = 0x1680 \<or>
      (0x2000 \<le> c \<and> c \<le> 0x200A) \<or> c = 0x2028 \<or> c = 0x2029 \<or> c = 0x202F \<or> c = 0x205F \<or>
      c = 0x3000 \<or> c = 0xFEFF)"

text \<open>The class of the code units from \<open>0x300\<close> to \<open>0x36F\<close>, the combining diacritical marks.\<close>

definition isCombiningMark :: "nat \<Rightarrow> bool" where
  "isCombiningMark c = (0x300 \<le> c \<and> c \<le> 0x36F)"

text \<open>The class \<open>[a-z0-9\s]\<close>, whose complement the last \<open>replace\<close> removes.\<close>

definition isKept :: "nat \<Rightarrow> bool" where
  "isKept c = ((0x61 \<le> c \<and> c \<le> 0x7A) \<or> (0x30 \<le> c \<and> c \<le> 0x39) \<or> isWhiteSpace c)"

definition normalizeString ::
  "(jsstring \<Rightarrow> jsstring) \<Rightarrow> (jsstring \<Rightarrow> jsstring) \<Rightarrow> jsstring \<Rightarrow> jsstring" where
  "normalizeString lc nfd s =
     filter isKept (filter (\<lambda>c. \<not> isCombiningMark c) (nfd (lc s)))"

text \<open>
  The matrix of \<open>calculateLevenshteinDistance\<close> has \<open>b.length + 1\<close> rows, each an array of
  its own with \<open>a.length + 1\<close> cells. The cells start as \<open>null\<close>, which counts as 0 in
  arithmetic; every cell is written before it is read, and every access is in range.
\<close>

definition matrix_get :: "nat list list \<Rightarrow> nat \<Rightarrow> nat \<Rightarrow> nat" where
  "matrix_get m j i = m ! j ! i"

definition matrix_set :: "nat list list \<Rightarrow> nat \<Rightarrow> nat \<Rightarrow> nat \<Rightarrow> nat list list" where
  "matrix_set m j i v = m[j := (m ! j)[i := v]]"

definition levCell :: "'a list \<Rightarrow> 'a list \<Rightarrow> nat \<Rightarrow> nat list list \<Rightarrow> nat \<Rightarrow> nat list list" where
  "levCell a b j m i =
     (let substitutionCost = (if a ! (i - 1) = b ! (j - 1) then 0 else 1)
      in matrix_set m j i
           (min (min (matrix_get m j (i - 1) + 1) (matrix_get m (j - 1) i + 1))
                (matrix_get m (j - 1) (i - 1) + substitutionCost)))"

definition levRow :: "'a list \<Rightarrow> 'a list \<Rightarrow> nat \<Rightarrow> nat list list \<Rightarrow> nat list list" where
  "levRow a b j m = fold (\<lambda>i m'. levCell a b j m' i) [1..<length a + 1] m"

definition calculateLevenshteinDistance :: "'a list \<Rightarrow> 'a list \<Rightarrow> nat" where
  "calculateLevenshteinDistance a b =
     (if length a = 0 then length b
      else if length b = 0 then length a
      else
        (let matrix0 = replicate (length b + 1) (replicate (length a + 1) 0);
             matrix1 = fold (\<lambda>i m. matrix_set m 0 i i) [0..<length a + 1] matrix0;
             matrix2 = fold (\<lambda>j m. matrix_set m j 0 j) [0..<length b + 1] matrix1;
             matrix3 = fold (levRow a b) [1..<length b + 1] matrix2
         in matrix_get matrix3 (length b) (length a)))"

text \<open>
  The reference: the recursive definition of the Levenshtein distance, in which a
  deletion, an insertion and a substitution cost 1 and a match costs nothing.
\<close>

fun levenshtein :: "'a list \<Rightarrow> 'a list \<Rightarrow> nat" where
  "levenshtein [] ys = length ys"
| "levenshtein xs [] = length xs"
| "levenshtein (x # xs) (y # ys) =
     min (min (levenshtein xs (y # ys) + 1) (levenshtein (x # xs) ys + 1))
         (levenshtein xs ys + (if x = y then 0 else 1))"

text \<open>
  \<open>s.split(/\s+/)\<close>: every maximal run of white space ends the current piece, so a string
  that starts or ends with white space has an empty first or last piece, and the empty
  string has the one piece \<open>""\<close>.
\<close>

function splitWhiteSpace :: "jsstring \<Rightarrow> jsstring \<Rightarrow> jsstring list" where
  "splitWhiteSpace cur [] = [cur]"
| "splitWhiteSpace cur (c # cs) =
     (if isWhiteSpace c then cur # splitWhiteSpace [] (dropWhile isWhiteSpace cs)
      else splitWhiteSpace (cur @ [c]) cs)"
  by pat_completeness auto
termination
  by (relation "measure (\<lambda>(cur, s). length s)")
     (auto simp: less_Suc_eq_le length_dropWhile_le)

definition split_ws :: "jsstring \<Rightarrow> jsstring list" where
  "split_ws s = splitWhiteSpace [] s"

text \<open>
  The scores are JavaScript numbers: IEEE 754 binary64 values. A finite number is the
  real number it denotes, and an arithmetic operation returns the exact result rounded
  to the nearest number, a tie going to the one with the even significand.
  \<open>roundTiesToEven\<close> rounds a real number to the nearest integer in that way;
  \<open>ulpExponent x\<close> is the exponent of the unit in the last place of the 53-bit
  significand at \<open>x\<close> (\<open>- 1074\<close> in the subnormal range); \<open>double x\<close> is the number
  nearest to \<open>x\<close>. The overflow to infinity is left out: no value of the matcher is
  outside the interval from \<open>- 1\<close> to 1.
\<close>

definition roundTiesToEven :: "real \<Rightarrow> int" where
  "roundTiesToEven y =
     (let f = \<lfloor>y\<rfloor>
      in if y - of_int f < 1 / 2 then f
         else if 1 / 2 < y - of_int f then f + 1
         else if even f then f else f + 1)"

definition ulpExponent :: "real \<Rightarrow> int" where
  "ulpExponent x = max \<lfloor>log 2 \<bar>x\<bar>\<rfloor> (- 1022) - 52"

definition double :: "real \<Rightarrow> real" where
  "double x =
     (if x = 0 then 0
      else of_int (roundTiesToEven (x / 2 powr of_int (ulpExponent x))) * 2 powr of_int (ulpExponent x))"

text \<open>The operations \<open>a * b\<close>, \<open>a / b\<close>, \<open>a + b\<close> and \<open>a - b\<close> on numbers.\<close>

definition fmul :: "real \<Rightarrow> real \<Rightarrow> real" where
  "fmul a b = double (a * b)"

definition fdiv :: "real \<Rightarrow> real \<Rightarrow> real" where
  "fdiv a b = double (a / b)"

definition fadd :: "real \<Rightarrow> real \<Rightarrow> real" where
  "fadd a b = double (a + b)"

definition fsub :: "real \<Rightarrow> real \<Rightarrow> real" where
  "fsub a b = double (a - b)"

text \<open>
  A literal such as \<open>0.6\<close> is the number nearest to the decimal, \<open>double 0.6\<close>. A length
  or a count is an integer below \<open>2 ^ 53\<close> (the language bounds the length of a string
  and of an array), which a number holds exactly, as it holds the difference
  \<open>maxLength - distance\<close> of two such integers. No division is by zero: \<open>split\<close> never
  returns an empty array, and the other division is guarded.
\<close>

definition calculateSimilarityScore ::
  "(jsstring \<Rightarrow> jsstring) \<Rightarrow> (jsstring \<Rightarrow> jsstring) \<Rightarrow> jsstring \<Rightarrow> jsstring \<Rightarrow> real" where
  "calculateSimilarityScore lc nfd query item =
     (let normalizedQuery = normalizeString lc nfd query;
          normalizedItem = normalizeString lc nfd item
      in if normalizedItem = normalizedQuery then 1
         else if str_includes normalizedItem normalizedQuery then double 0.8
         else
           (let queryWords = split_ws normalizedQuery;
                itemWords = split_ws normalizedItem;
                wordMatchCount =
                  length (filter (\<lambda>word. list_ex (\<lambda>itemWord. str_includes itemWord word) itemWords)
                            queryWords);
                wordMatchScore =
                  fmul (fdiv (real wordMatchCount) (real (length queryWords))) (double 0.6);
                maxLength = max (length normalizedQuery) (length normalizedItem);
                levenshteinScore =
                  (if maxLength > 0
                   then fmul (fdiv (real maxLength
                                      - real (calculateLevenshteinDistance normalizedQuery normalizedItem))
                                   (real maxLength))
                             (double 0.4)
                   else 0)
            in max wordMatchScore levenshteinScore))"

record GroceryItem =
  gid :: jsstring
  gname :: jsstring
  gcategory :: jsstring
  gang :: jsstring

definition totalScore ::
  "(jsstring \<Rightarrow> jsstring) \<Rightarrow> (jsstring \<Rightarrow> jsstring) \<Rightarrow> jsstring \<Rightarrow> GroceryItem \<Rightarrow> real" where
  "totalScore lc nfd query item =
     (let nameScore = fmul (calculateSimilarityScore lc nfd query (gname item)) (double 0.7);
          categoryScore = fmul (calculateSimilarityScore lc nfd query (gcategory item)) (double 0.3)
      in fadd nameScore categoryScore)"

definition trim :: "jsstring \<Rightarrow> jsstring" where
  "trim s = rev (dropWhile isWhiteSpace (rev (dropWhile isWhiteSpace s)))"

text \<open>
  \<open>searchProducts\<close>: the threshold is the number \<open>0.2\<close>, and the comparator of the sort is
  the rounded difference \<open>b.score - a.score\<close>.
\<close>

definition searchProducts ::
  "(jsstring \<Rightarrow> jsstring) \<Rightarrow> (jsstring \<Rightarrow> jsstring) \<Rightarrow> jsstring \<Rightarrow> GroceryItem list \<Rightarrow> GroceryItem list" where
  "searchProducts lc nfd query allItems =
     (if trim query = [] then []
      else
        (let scoredItems = map (\<lambda>item. (item, totalScore lc nfd query item)) allItems
         in take 20
              (map fst
                 (array_sort (\<lambda>a b. fsub (snd b) (snd a))
                    (filter (\<lambda>(item, score). score > double 0.2) scoredItems)))))"

text \<open>
  A canonical decomposition for the examples: it decomposes \<open>U+00E9\<close> and maps the two
  quad spaces \<open>U+2000\<close> and \<open>U+2001\<close> to their canonical equivalents, as \<open>normalize('NFD')\<close>
  does, and leaves every other code unit alone.
\<close>

definition latinNFDUnit :: "nat \<Rightarrow> nat list" where
  "latinNFDUnit c =
     (if c = 0xE9 then [0x65, 0x301]
      else if c = 0x2000 then [0x2002]
      else if c = 0x2001 then [0x2003]
      else [c])"

definition latinNFD :: "jsstring \<Rightarrow> jsstring" where
  "latinNFD s = concat (map latinNFDUnit s)"

section \<open>The score as the specification words it\<close>


section \<open>Example data\<close>

text \<open>
  A store with the corridors \<open>Gang 2\<close>, \<open>Gang 7\<close> (which the distance table does not
  have), \<open>Gang 1\<close> and \<open>Seiten M\<close>, and the index the constructor builds from it.
\<close>

definition exampleStore :: ArticleData where
  "exampleStore =
     [(str ''Gang 2'',
         [(str ''S'', Section \<lparr>categories = Some [(str ''Bakery'', [str ''Bread''])],
                               positions = None\<rparr>)]),
      (str ''Gang 7'',
         [(str ''N'', Section \<lparr>categories = Some [(str ''Tea'', [str ''Green Tea''])],
                               positions = None\<rparr>)]),
      (str ''Gang 1'',
         [(str ''N'', Section \<lparr>categories = None,
                               positions = Some [(str ''E'', [(str ''Dairy'', [str ''Milk 1L''])])]\<rparr>)]),
      (str ''Seiten M'', [(str ''Misc'', StringArray [str ''Batteries''])])]"

definition exampleIndex :: ProductLocations where
  "exampleIndex = (case newStoreOptimizer asciiLower exampleStore of Inr m \<Rightarrow> m | Inl e \<Rightarrow> [])"

definition exampleIndex_visual :: ProductLocations where
  "exampleIndex_visual =
     (case buildProductLocationMap asciiLower exampleStore [] of Inr m \<Rightarrow> m | Inl e \<Rightarrow> [])"

text \<open>
  A store with a corridor whose name is the name of a member of \<open>Object.prototype\<close>, and
  a store whose \<open>Seiten M\<close> has a value that is not an array.
\<close>

definition inheritedNameStore :: ArticleData where
  "inheritedNameStore =
     [(str ''Gang 1'',
         [(str ''N'', Section \<lparr>categories = Some [(str ''Dairy'', [str ''Milk 1L''])],
                               positions = None\<rparr>)]),
      (str ''constructor'',
         [(str ''N'', Section \<lparr>categories = Some [(str ''Tea'', [str ''Green Tea''])],
                               positions = None\<rparr>)])]"

definition inheritedNameIndex :: ProductLocations where
  "inheritedNameIndex =
     (case newStoreOptimizer asciiLower inheritedNameStore of Inr m \<Rightarrow> m | Inl e \<Rightarrow> [])"

definition sectionedSeitenMStore :: ArticleData where
  "sectionedSeitenMStore =
     [(str ''Seiten M'',
         [(str ''N'', Section \<lparr>categories = Some [(str ''Misc'', [str ''Batteries''])],
                               positions = None\<rparr>)])]"

text \<open>A store in which a product has the empty name, and is not the first product.\<close>

definition emptyNameStore :: ArticleData where
  "emptyNameStore =
     [(str ''Gang 1'',
         [(str ''N'', Section \<lparr>categories = Some [(str ''Dairy'', [str ''Milk''])],
                               positions = None\<rparr>)]),
      (str ''Gang 2'',
         [(str ''N'', Section \<lparr>categories = Some [(str ''Misc'', [[]])],
                               positions = None\<rparr>)])]"

definition emptyNameIndex :: ProductLocations where
  "emptyNameIndex = (case newStoreOptimizer asciiLower emptyNameStore of Inr m \<Rightarrow> m | Inl e \<Rightarrow> [])"


definition entryC :: GroceryItem where
  "entryC = \<lparr>gid = str ''1'', gname = str ''c'', gcategory = [], gang = str ''Gang 1''\<rparr>"

definition entryAC :: GroceryItem where
  "entryAC = \<lparr>gid = str ''2'', gname = str ''a c'', gcategory = [], gang = str ''Gang 1''\<rparr>"

section \<open>Auxiliary notions\<close>

text \<open>
  The entries of the shopping list for which \<open>findProductLocation\<close> returns a location,
  each with that location; one round of the loop of \<open>organizeItemsByCorridor\<close>; and
  the array a corridor has in the grouping.
\<close>

definition located :: "(jsstring \<Rightarrow> jsstring) \<Rightarrow> ProductLocations \<Rightarrow> jsstring list \<Rightarrow> LocatedItem list" where
  "located lc m sl = concat (map (\<lambda>s. case fst (findProductLocation lc m s) of Some loc \<Rightarrow> [(s, loc)] | None \<Rightarrow> []) sl)"

definition organizeStep :: "LocatedItem \<Rightarrow> (jsstring, LocatedItem list) jsmap \<Rightarrow> (jsstring, LocatedItem list) jsmap" where
  "organizeStep = (\<lambda>(item, location) corridorItems.
             (let ci = (if \<not> map_has corridorItems (corridor location)
                        then map_set (corridor location) [] corridorItems else corridorItems)
              in case map_get ci (corridor location) of
                   Some xs \<Rightarrow> map_set (corridor location) (xs @ [(item, location)]) ci
                 | None \<Rightarrow> ci))"

definition bucket :: "(jsstring, LocatedItem list) jsmap \<Rightarrow> jsstring \<Rightarrow> LocatedItem list" where
  "bucket ci c = (case map_get ci c of Some xs \<Rightarrow> xs | None \<Rightarrow> [])"

text \<open>
  For the matrix of \<open>calculateLevenshteinDistance\<close>: the distance of two prefixes, the
  shape of the matrix, and the invariant of its loops (the first column is set, the
  rows before \<open>rows\<close> are complete, and so are the cells before \<open>cols\<close> of the row
  \<open>rows\<close>).
\<close>

definition prefixDistance :: "'a list \<Rightarrow> 'a list \<Rightarrow> nat \<Rightarrow> nat \<Rightarrow> nat" where
  "prefixDistance a b i j = levenshtein (take i a) (take j b)"

definition wf_matrix :: "'a list \<Rightarrow> 'a list \<Rightarrow> nat list list \<Rightarrow> bool" where
  "wf_matrix a b m = (length m = length b + 1 \<and> (\<forall>j \<le> length b. length (m ! j) = length a + 1))"

definition lev_inv :: "'a list \<Rightarrow> 'a list \<Rightarrow> nat list list \<Rightarrow> nat \<Rightarrow> nat \<Rightarrow> bool" where
  "lev_inv a b m rows cols =
     (wf_matrix a b m \<and>
      (\<forall>j \<le> length b. matrix_get m j 0 = j) \<and>
      (\<forall>j i. j < rows \<and> j \<le> length b \<and> i \<le> length a \<longrightarrow> matrix_get m j i = prefixDistance a b i j) \<and>
      (\<forall>i. i < cols \<and> i \<le> length a \<and> rows \<le> length b \<longrightarrow> matrix_get m rows i = prefixDistance a b i rows))"

text \<open>
  A sort key for the proofs, not a function of the source. For two names neither of
  which is inherited from \<open>Object.prototype\<close> the comparator of the corridors returns the
  difference of their keys: the number of the table, and 0 for a name the table does not
  have. For an inherited name the comparator returns \<open>NaN\<close> and there is no key; the
  value 0 given here is never used, every lemma on the key excludes these names.
\<close>

definition rankKey :: "jsstring \<Rightarrow> int" where
  "rankKey c = (case distanceOf c of Num d \<Rightarrow> d | Undefined \<Rightarrow> 0 | Inherited \<Rightarrow> 0)"

text \<open>
  The catalogs on which the constructor does not throw: every value of a corridor
  \<open>Seiten M\<close> is an array.
\<close>

definition arraysOnly :: "GangSection \<Rightarrow> bool" where
  "arraysOnly corridorData =
     list_all (\<lambda>(cat, v). case v of StringArray products \<Rightarrow> True | Section sd \<Rightarrow> False) corridorData"

definition constructible :: "ArticleData \<Rightarrow> bool" where
  "constructible storeData =
     list_all (\<lambda>(c, corridorData). c = str ''Seiten M'' \<longrightarrow> arraysOnly corridorData) storeData"

text \<open>The scored entries above the threshold, sorted, before the projection and the cut.\<close>

definition scored :: "(jsstring \<Rightarrow> jsstring) \<Rightarrow> (jsstring \<Rightarrow> jsstring) \<Rightarrow> jsstring \<Rightarrow> GroceryItem list \<Rightarrow> (GroceryItem \<times> real) list" where
  "scored lc nfd query allItems =
     array_sort (\<lambda>a b. fsub (snd b) (snd a))
       (filter (\<lambda>(item, score). score > double 0.2) (map (\<lambda>item. (item, totalScore lc nfd query item)) allItems))"

section \<open>Properties of the sort and of the maps\<close>

lemma mset_insert_sorted: "mset (insert_sorted cmp x ys) = add_mset x (mset ys)"
  by (induction ys) auto

lemma mset_array_sort: "mset (array_sort cmp xs) = mset xs"
  by (induction xs) (auto simp: array_sort_def mset_insert_sorted)

lemma set_array_sort: "set (array_sort cmp xs) = set xs"
  using mset_array_sort [of cmp xs] by (metis set_mset_mset)

lemma length_array_sort: "length (array_sort cmp xs) = length xs"
  using mset_array_sort [of cmp xs] by (metis size_mset)

lemma set_insert_sorted: "set (insert_sorted cmp x ys) = insert x (set ys)"
  by (induction ys) auto

lemma sorted_insert_key:
  fixes k :: "'a \<Rightarrow> 'n::linordered_idom"
  shows "sorted (map k ys) \<Longrightarrow> sorted (map k (insert_sorted (\<lambda>a b. k a - k b) x ys))"
  by (induction ys) (auto simp: set_insert_sorted)

lemma sorted_array_sort_key:
  fixes k :: "'a \<Rightarrow> 'n::linordered_idom"
  shows "sorted (map k (array_sort (\<lambda>a b. k a - k b) xs))"
  by (induction xs) (auto simp: array_sort_def sorted_insert_key)

lemma filter_insert_sorted_key:
  fixes k :: "'a \<Rightarrow> 'n::linordered_idom"
  shows "sorted (map k ys) \<Longrightarrow>
    filter (\<lambda>y. k y = v) (insert_sorted (\<lambda>a b. k a - k b) x ys) =
      (if k x = v then x # filter (\<lambda>y. k y = v) ys else filter (\<lambda>y. k y = v) ys)"
proof (induction ys)
  case Nil
  then show ?case by simp
next
  case (Cons y ys)
  then show ?case
    by (auto simp: filter_empty_conv)
qed

lemma stable_array_sort_key:
  fixes k :: "'a \<Rightarrow> 'n::linordered_idom"
  shows "filter (\<lambda>y. k y = v) (array_sort (\<lambda>a b. k a - k b) xs) = filter (\<lambda>y. k y = v) xs"
proof (induction xs)
  case Nil
  then show ?case by (simp add: array_sort_def)
next
  case (Cons x xs)
  have s: "sorted (map k (array_sort (\<lambda>a b. k a - k b) xs))" by (rule sorted_array_sort_key)
  show ?case
    using Cons filter_insert_sorted_key [OF s, of v x]
    by (simp add: array_sort_def)
qed

lemma insert_sorted_cong:
  "\<forall>y \<in> set ys. (cmp x y \<le> 0) = (cmp' x y \<le> 0) \<Longrightarrow>
   insert_sorted cmp x ys = insert_sorted cmp' x ys"
  by (induction ys) simp_all

lemma array_sort_cong:
  assumes "\<forall>x \<in> set xs. \<forall>y \<in> set xs. (cmp x y \<le> 0) = (cmp' x y \<le> 0)"
  shows "array_sort cmp xs = array_sort cmp' xs"
  using assms
proof (induction xs)
  case Nil
  then show ?case by (simp add: array_sort_def)
next
  case (Cons x xs)
  then have ih: "array_sort cmp xs = array_sort cmp' xs" by simp
  have "\<forall>y \<in> set (array_sort cmp' xs). (cmp x y \<le> 0) = (cmp' x y \<le> 0)"
    using Cons.prems by (simp add: set_array_sort)
  then have "insert_sorted cmp x (array_sort cmp' xs) = insert_sorted cmp' x (array_sort cmp' xs)"
    by (rule insert_sorted_cong)
  then show ?case
    using ih by (simp add: array_sort_def)
qed

lemma compareCorridors_plain:
  assumes "distanceOf a \<noteq> Inherited" and "distanceOf b \<noteq> Inherited"
  shows "sortCompare (compareCorridors a b) = rankKey a - rankKey b"
  using assms
  by (cases "distanceOf a"; cases "distanceOf b")
     (simp_all add: compareCorridors_def sortCompare_def orZero_def minusNumber_def rankKey_def)

lemma name_corridorPath: "name (corridorPath ci ep c) = c"
  by (simp add: corridorPath_def Let_def)

lemma sorted_sortedCorridors:
  assumes "\<forall>c \<in> fst ` set ci. distanceOf c \<noteq> Inherited"
  shows "sorted (map rankKey (sortedCorridors ci))"
proof -
  have "array_sort (\<lambda>a b. sortCompare (compareCorridors a b)) (map fst ci) =
        array_sort (\<lambda>a b. rankKey a - rankKey b) (map fst ci)"
    using assms by (intro array_sort_cong) (simp add: compareCorridors_plain)
  then show ?thesis
    unfolding sortedCorridors_def
    using sorted_array_sort_key [of rankKey "map fst ci"] by simp
qed

lemma findProductLocation_cases:
  "findProductLocation lc m s = (None, False) \<or> (\<exists>loc. findProductLocation lc m s = (Some loc, True))"
  by (auto simp: findProductLocation_def Let_def map_has_def map_get_def split: option.splits)

lemma fold_locateStep:
  "fold (locateStep lc m) sl (a, b) =
   (a @ located lc m sl, b @ filter (\<lambda>s. \<not> snd (findProductLocation lc m s)) sl)"
proof (induction sl arbitrary: a b)
  case Nil
  then show ?case by (simp add: located_def)
next
  case (Cons s sl)
  from findProductLocation_cases [of lc m s] show ?case
  proof
    assume "findProductLocation lc m s = (None, False)"
    then show ?thesis using Cons by (simp add: locateStep_def located_def)
  next
    assume "\<exists>loc. findProductLocation lc m s = (Some loc, True)"
    then show ?thesis using Cons by (auto simp: locateStep_def located_def)
  qed
qed

lemma map_fst_located:
  "map fst (located lc m sl) = filter (\<lambda>s. snd (findProductLocation lc m s)) sl"
proof (induction sl)
  case Nil
  then show ?case by (simp add: located_def)
next
  case (Cons s sl)
  then show ?case using findProductLocation_cases [of lc m s]
    by (auto simp: located_def)
qed

lemma map_set_absent: "map_of m k = None \<Longrightarrow> map_set k v m = m @ [(k, v)]"
  by (induction m) (auto split: if_splits)

lemma map_of_map_set: "map_of (map_set k v m) = (map_of m)(k \<mapsto> v)"
  by (induction m) (auto simp: fun_eq_iff)

lemma map_fst_map_set:
  "map fst (map_set k v m) = (if k \<in> fst ` set m then map fst m else map fst m @ [k])"
  by (induction m) (auto simp: rev_image_eqI)

lemma keys_map_set: "fst ` set (map_set k v m) = insert k (fst ` set m)"
proof -
  have "set (map fst (map_set k v m)) = insert k (set (map fst m))"
    by (simp only: map_fst_map_set) (auto simp: rev_image_eqI)
  then show ?thesis by simp
qed

lemma distinct_map_set: "distinct (map fst m) \<Longrightarrow> distinct (map fst (map_set k v m))"
  by (induction m) (auto simp: keys_map_set)

lemma mset_concat_map_set:
  "map_of m k = Some xs \<Longrightarrow>
   mset (concat (map snd (map_set k (xs @ [x]) m))) = add_mset x (mset (concat (map snd m)))"
  by (induction m) (auto split: if_splits)

lemma organizeStep_inv:
  assumes "distinct (map fst ci)"
  shows "distinct (map fst (organizeStep it ci)) \<and>
         mset (concat (map snd (organizeStep it ci))) = add_mset it (mset (concat (map snd ci)))"
proof (cases it)
  case (Pair item location)
  show ?thesis
  proof (cases "map_of ci (corridor location)")
    case None
    have g: "map_of (map_set (corridor location) [] ci) (corridor location) = Some []"
      by (simp add: map_of_map_set)
    have "organizeStep it ci =
          map_set (corridor location) [(item, location)] (map_set (corridor location) [] ci)"
      using None Pair g
      by (simp add: organizeStep_def map_has_def map_get_def Let_def)
    then have "organizeStep it ci = map_set (corridor location) [(item, location)] (ci @ [(corridor location, [])])"
      using None by (simp add: map_set_absent)
    moreover have "map_set (corridor location) [(item, location)] (ci @ [(corridor location, [])])
        = ci @ [(corridor location, [(item, location)])]"
      using None by (induction ci) (auto split: if_splits)
    ultimately show ?thesis using assms None Pair
      by (auto simp: map_of_eq_None_iff)
  next
    case (Some xs)
    then have "organizeStep it ci = map_set (corridor location) (xs @ [(item, location)]) ci"
      using Pair by (simp add: organizeStep_def map_has_def map_get_def)
    then show ?thesis using assms Some Pair
      by (simp add: distinct_map_set mset_concat_map_set)
  qed
qed

lemma fold_organizeStep_inv:
  "distinct (map fst ci) \<Longrightarrow>
   distinct (map fst (fold organizeStep its ci)) \<and>
   mset (concat (map snd (fold organizeStep its ci))) = mset its + mset (concat (map snd ci))"
proof (induction its arbitrary: ci)
  case Nil
  then show ?case by simp
next
  case (Cons it its)
  from organizeStep_inv [OF Cons.prems, of it]
  have d: "distinct (map fst (organizeStep it ci))"
    and e: "mset (concat (map snd (organizeStep it ci))) = add_mset it (mset (concat (map snd ci)))"
    by simp_all
  from Cons.IH [OF d] e show ?case by simp
qed

lemma organize_inv:
  "distinct (map fst (organizeItemsByCorridor its)) \<and>
   mset (concat (map snd (organizeItemsByCorridor its))) = mset its"
proof -
  have "organizeItemsByCorridor its = fold organizeStep its []"
    by (simp add: organizeItemsByCorridor_def organizeStep_def)
  then show ?thesis using fold_organizeStep_inv [of "[]" its] by simp
qed

lemma buckets_of_keys:
  "distinct (map fst ci) \<Longrightarrow> map (bucket ci) (map fst ci) = map snd ci"
  by (auto simp: bucket_def map_get_def)

lemma item_names_corridorPath:
  "mset (map item_name (items (corridorPath ci ep c))) = mset (map fst (bucket ci c))"
proof -
  have "map (item_name \<circ> toPathItem) xs = map fst xs" for xs :: "LocatedItem list"
    by (induction xs) (auto simp: toPathItem_def)
  then have "mset (map item_name (map toPathItem (array_sort cmp xs))) = mset (map fst xs)"
    for cmp :: "LocatedItem \<Rightarrow> LocatedItem \<Rightarrow> int" and xs
    using mset_array_sort [of cmp xs] by (metis map_map mset_map)
  then show ?thesis
    by (simp add: corridorPath_def Let_def bucket_def)
qed

lemma optimize_unfold:
  "optimizeShoppingPath lc m sl =
   (let ci = organizeItemsByCorridor (located lc m sl)
    in \<lparr>corridors = map (corridorPath ci (determineCorridorEntryPoints ci)) (sortedCorridors ci),
        notFoundItems = filter (\<lambda>s. \<not> snd (findProductLocation lc m s)) sl\<rparr>)"
  by (simp add: optimizeShoppingPath_def fold_locateStep Let_def)

lemma sum_list_buckets:
  assumes "distinct (map fst ci)"
  shows "sum_list (map (\<lambda>c. mset (map fst (bucket ci c))) (sortedCorridors ci)) =
         mset (map fst (concat (map snd ci)))"
proof -
  let ?F = "\<lambda>c. mset (map fst (bucket ci c))"
  have "sum_list (map ?F (sortedCorridors ci)) = sum_mset (image_mset ?F (mset (sortedCorridors ci)))"
    by (simp only: sum_mset_sum_list [symmetric] mset_map)
  also have "\<dots> = sum_mset (image_mset ?F (mset (map fst ci)))"
    by (simp only: sortedCorridors_def mset_array_sort)
  also have "\<dots> = sum_list (map ?F (map fst ci))"
    by (simp only: sum_mset_sum_list [symmetric] mset_map)
  also have "\<dots> = sum_list (map (\<lambda>b. mset (map fst b)) (map (bucket ci) (map fst ci)))"
    by (simp add: comp_def)
  also have "\<dots> = sum_list (map (\<lambda>b. mset (map fst b)) (map snd ci))"
    by (simp only: buckets_of_keys [OF assms])
  also have "\<dots> = mset (map fst (concat (map snd ci)))"
    by (induction ci) auto
  finally show ?thesis .
qed

lemma corridor_items_mset:
  "mset (concat (map (\<lambda>p. map item_name (items p)) (corridors (optimizeShoppingPath lc m sl)))) =
   mset (filter (\<lambda>s. snd (findProductLocation lc m s)) sl)"
proof -
  let ?ci = "organizeItemsByCorridor (located lc m sl)"
  let ?ep = "determineCorridorEntryPoints ?ci"
  have "mset (concat (map (\<lambda>p. map item_name (items p)) (corridors (optimizeShoppingPath lc m sl)))) =
        sum_list (map (\<lambda>c. mset (map item_name (items (corridorPath ?ci ?ep c)))) (sortedCorridors ?ci))"
    by (simp add: optimize_unfold Let_def mset_concat comp_def)
  also have "\<dots> = sum_list (map (\<lambda>c. mset (map fst (bucket ?ci c))) (sortedCorridors ?ci))"
    by (simp only: item_names_corridorPath)
  also have "\<dots> = mset (map fst (concat (map snd ?ci)))"
    using organize_inv [of "located lc m sl"] by (simp only: sum_list_buckets)
  also have "\<dots> = image_mset fst (mset (concat (map snd ?ci)))"
    by simp
  also have "\<dots> = image_mset fst (mset (located lc m sl))"
    using organize_inv [of "located lc m sl"] by simp
  also have "\<dots> = mset (filter (\<lambda>s. snd (findProductLocation lc m s)) sl)"
    by (simp only: mset_map [symmetric] map_fst_located)
  finally show ?thesis .
qed

lemma distinct_insert_sorted: "distinct (insert_sorted cmp x ys) = (x \<notin> set ys \<and> distinct ys)"
  by (induction ys) (auto simp: set_insert_sorted)

lemma distinct_array_sort: "distinct (array_sort cmp xs) = distinct xs"
  by (induction xs) (auto simp: array_sort_def distinct_insert_sorted set_array_sort [unfolded array_sort_def])

text \<open>
  C2. Every entry of the shopping list, counted with its duplicates, is in the output
  exactly once: the names in the items of all corridors together with the items not found
  are the shopping list as a multiset; the former are the entries a location was found
  for, the latter the entries none was found for, in the order of the list; and no
  corridor appears twice.
\<close>

theorem coverage:
  "mset (concat (map (\<lambda>p. map item_name (items p)) (corridors (optimizeShoppingPath lc m sl))))
     + mset (notFoundItems (optimizeShoppingPath lc m sl)) = mset sl \<and>
   mset (concat (map (\<lambda>p. map item_name (items p)) (corridors (optimizeShoppingPath lc m sl)))) =
     mset (filter (\<lambda>s. snd (findProductLocation lc m s)) sl) \<and>
   notFoundItems (optimizeShoppingPath lc m sl) = filter (\<lambda>s. \<not> snd (findProductLocation lc m s)) sl \<and>
   distinct (map name (corridors (optimizeShoppingPath lc m sl)))"
proof -
  have nf: "notFoundItems (optimizeShoppingPath lc m sl) = filter (\<lambda>s. \<not> snd (findProductLocation lc m s)) sl"
    by (simp add: optimize_unfold Let_def)
  have d: "distinct (map name (corridors (optimizeShoppingPath lc m sl)))"
    using organize_inv [of "located lc m sl"]
    by (simp add: optimize_unfold Let_def comp_def name_corridorPath sortedCorridors_def distinct_array_sort)
  have "mset (filter (\<lambda>s. snd (findProductLocation lc m s)) sl) +
        mset (filter (\<lambda>s. \<not> snd (findProductLocation lc m s)) sl) = mset sl"
    by (induction sl) auto
  then show ?thesis
    using nf d corridor_items_mset [of lc m sl] by simp
qed

lemma optimize_empty_list:
  "optimizeShoppingPath lc m [] = \<lparr>corridors = [], notFoundItems = []\<rparr>"
  by (simp add: optimizeShoppingPath_def organizeItemsByCorridor_def sortedCorridors_def
      array_sort_def)

lemma indexSeitenM_arraysOnly:
  "arraysOnly corridorData \<Longrightarrow> \<exists>m'. indexSeitenM lc c corridorData m = Inr m'"
proof (induction corridorData arbitrary: m)
  case Nil
  then show ?case by simp
next
  case (Cons entry rest)
  obtain cat v where entry: "entry = (cat, v)" by (cases entry)
  with Cons.prems obtain products where v: "v = StringArray products" and rest: "arraysOnly rest"
    by (cases v) (simp_all add: arraysOnly_def)
  from Cons.IH [OF rest] show ?case
    by (simp add: entry v)
qed

lemma createProductIndex_constructible:
  "constructible storeData \<Longrightarrow> \<exists>m'. createProductIndex lc storeData m = Inr m'"
proof (induction storeData arbitrary: m)
  case Nil
  then show ?case by simp
next
  case (Cons entry rest)
  obtain c corridorData where entry: "entry = (c, corridorData)" by (cases entry)
  from Cons.prems have rest: "constructible rest"
    by (simp add: constructible_def)
  show ?case
  proof (cases "c = str ''Seiten M''")
    case True
    with Cons.prems entry have "arraysOnly corridorData"
      by (simp add: constructible_def)
    then obtain m1 where "indexSeitenM lc c corridorData m = Inr m1"
      using indexSeitenM_arraysOnly by blast
    with Cons.IH [OF rest, of m1] True show ?thesis
      by (simp add: entry)
  next
    case False
    with Cons.IH [OF rest] show ?thesis
      by (simp add: entry)
  qed
qed

text \<open>
  C9, as amended. For every catalog in which every value of a corridor \<open>Seiten M\<close> is an
  array, so that the constructor of the optimizer does not throw, optimizing the empty
  shopping list succeeds and returns the path with no corridor and no item that was not
  found.
\<close>

theorem empty_list_empty_path:
  assumes "constructible storeData"
  shows "optimizedPathOf lc storeData [] = Inr \<lparr>corridors = [], notFoundItems = []\<rparr>"
proof -
  from createProductIndex_constructible [OF assms]
  obtain m where "newStoreOptimizer lc storeData = Inr m"
    unfolding newStoreOptimizer_def by blast
  then show ?thesis
    by (simp add: optimizedPathOf_def optimize_empty_list)
qed

lemma exampleStore_constructible: "constructible exampleStore"
  by (simp add: constructible_def exampleStore_def arraysOnly_def str_def)

theorem empty_list_empty_path_witness:
  "constructible exampleStore \<and>
   optimizedPathOf asciiLower exampleStore [] = Inr \<lparr>corridors = [], notFoundItems = []\<rparr>"
  using exampleStore_constructible empty_list_empty_path [of exampleStore asciiLower]
  by simp

text \<open>
  C9 as stated fails on a catalog whose \<open>Seiten M\<close> holds a section instead of an array
  of products: the constructor throws a \<open>TypeError\<close>, and there is no path, for the empty
  shopping list as for any other.
\<close>

theorem empty_list_constructor_throws:
  "optimizedPathOf asciiLower sectionedSeitenMStore [] = Inl TypeError"
  by (simp add: optimizedPathOf_def newStoreOptimizer_def sectionedSeitenMStore_def)

lemma example_index_built: "newStoreOptimizer asciiLower exampleStore = Inr exampleIndex"
  by code_simp

theorem coverage_witness:
  "mset (concat (map (\<lambda>p. map item_name (items p))
      (corridors (optimizeShoppingPath asciiLower exampleIndex [str ''milk'', str ''nothing'', str ''milk'']))))
     + mset (notFoundItems (optimizeShoppingPath asciiLower exampleIndex [str ''milk'', str ''nothing'', str ''milk'']))
     = mset [str ''milk'', str ''nothing'', str ''milk''] \<and>
   notFoundItems (optimizeShoppingPath asciiLower exampleIndex [str ''milk'', str ''nothing'', str ''milk''])
     = [str ''nothing'']"
proof -
  have "notFoundItems (optimizeShoppingPath asciiLower exampleIndex [str ''milk'', str ''nothing'', str ''milk''])
     = [str ''nothing'']"
    by code_simp
  moreover from coverage [of asciiLower exampleIndex "[str ''milk'', str ''nothing'', str ''milk'']"]
  have "mset (concat (map (\<lambda>p. map item_name (items p))
      (corridors (optimizeShoppingPath asciiLower exampleIndex [str ''milk'', str ''nothing'', str ''milk'']))))
     + mset (notFoundItems (optimizeShoppingPath asciiLower exampleIndex [str ''milk'', str ''nothing'', str ''milk'']))
     = mset [str ''milk'', str ''nothing'', str ''milk'']"
    by (rule conjunct1)
  ultimately show ?thesis by (intro conjI)
qed

text \<open>
  C1. The corridors of the path are to be in non-decreasing order of their rank in the
  distance table, whatever the order of the shopping list. The code does not keep this
  order when a corridor has the name of a member of \<open>Object.prototype\<close>: for the corridor
  \<open>constructor\<close> the table access returns the inherited function, every comparison with
  it is \<open>NaN\<close>, and the two corridors stay in the order in which the shopping list names
  them, \<open>Gang 1\<close> first for one list and last for the reversed list.
\<close>

theorem inherited_name_keeps_list_order:
  "map name (corridors (optimizeShoppingPath asciiLower inheritedNameIndex
      [str ''milk'', str ''green tea''])) = [str ''Gang 1'', str ''constructor''] \<and>
   map name (corridors (optimizeShoppingPath asciiLower inheritedNameIndex
      [str ''green tea'', str ''milk''])) = [str ''constructor'', str ''Gang 1''] \<and>
   distanceOf (str ''Gang 1'') = Num 2 \<and> distanceOf (str ''constructor'') = Inherited \<and>
   compareCorridors (str ''Gang 1'') (str ''constructor'') = None \<and>
   compareCorridors (str ''constructor'') (str ''Gang 1'') = None \<and>
   newStoreOptimizer asciiLower inheritedNameStore = Inr inheritedNameIndex"
  by code_simp

lemma distanceOf_positive: "distanceOf c = Num d \<Longrightarrow> 1 \<le> d"
proof -
  assume "distanceOf c = Num d"
  then have "map_of corridorDistances c = Some d"
    by (simp add: distanceOf_def split: option.splits if_splits)
  then have "(c, d) \<in> set corridorDistances"
    by (rule map_of_SomeD)
  then show ?thesis by (auto simp: corridorDistances_def)
qed

lemma sorted_ranks:
  assumes "\<forall>c \<in> set (corridors (optimizeShoppingPath lc m sl)). distanceOf (name c) \<noteq> Inherited"
  shows "sorted (map (\<lambda>c. rankKey (name c)) (corridors (optimizeShoppingPath lc m sl)))"
proof -
  let ?ci = "organizeItemsByCorridor (located lc m sl)"
  have names: "map name (corridors (optimizeShoppingPath lc m sl)) = sortedCorridors ?ci"
    by (simp add: optimize_unfold Let_def comp_def name_corridorPath)
  have "set (sortedCorridors ?ci) = fst ` set ?ci"
    by (simp add: sortedCorridors_def set_array_sort)
  with names have "name ` set (corridors (optimizeShoppingPath lc m sl)) = fst ` set ?ci"
    by (metis list.set_map)
  with assms have "\<forall>c \<in> fst ` set ?ci. distanceOf c \<noteq> Inherited"
    by (metis (no_types, lifting) imageE)
  then have "sorted (map rankKey (sortedCorridors ?ci))"
    by (rule sorted_sortedCorridors)
  then have "sorted (map rankKey (map name (corridors (optimizeShoppingPath lc m sl))))"
    by (simp only: names)
  then show ?thesis by (simp add: comp_def)
qed

text \<open>
  C4, as amended. A corridor whose name the distance table does not have gets the rank 0
  from the comparator, below every rank of the table: in the optimized path it stands
  before every corridor whose name the table has, never after or between them. This is
  for the paths none of whose corridors has the name of a member of \<open>Object.prototype\<close>;
  nothing is said of the others.
\<close>

theorem unknown_corridors_first:
  assumes "\<forall>c \<in> set (corridors (optimizeShoppingPath lc m sl)). distanceOf (name c) \<noteq> Inherited"
    and "i < length (corridors (optimizeShoppingPath lc m sl))"
    and "j < length (corridors (optimizeShoppingPath lc m sl))"
    and "distanceOf (name (corridors (optimizeShoppingPath lc m sl) ! i)) = Undefined"
    and "distanceOf (name (corridors (optimizeShoppingPath lc m sl) ! j)) = Num d"
  shows "i < j"
proof (rule ccontr)
  let ?cs = "corridors (optimizeShoppingPath lc m sl)"
  let ?r = "map (\<lambda>c. rankKey (name c)) ?cs"
  assume "\<not> i < j"
  then have "j \<le> i" by simp
  moreover have "sorted ?r" using assms(1) by (rule sorted_ranks)
  ultimately have "?r ! j \<le> ?r ! i"
    using assms(2) by (simp add: sorted_iff_nth_mono del: map_map)
  then have le: "rankKey (name (?cs ! j)) \<le> rankKey (name (?cs ! i))"
    using assms(2,3) by simp
  have "rankKey (name (?cs ! i)) = 0"
    using assms(4) by (simp add: rankKey_def)
  moreover have "1 \<le> rankKey (name (?cs ! j))"
    using distanceOf_positive [OF assms(5)] assms(5) by (simp add: rankKey_def)
  ultimately show False using le by simp
qed

text \<open>
  C4 as stated fails: with bread (in \<open>Gang 2\<close>) and green tea (in \<open>Gang 7\<close>, which the
  table does not have) on the list, \<open>Gang 7\<close> is visited first.
\<close>

theorem unknown_corridor_not_last:
  "map name (corridors (optimizeShoppingPath asciiLower exampleIndex [str ''bread'', str ''green tea''])) =
     [str ''Gang 7'', str ''Gang 2''] \<and>
   distanceOf (str ''Gang 7'') = Undefined \<and> distanceOf (str ''Gang 2'') = Num 3 \<and>
   newStoreOptimizer asciiLower exampleStore = Inr exampleIndex"
  by code_simp

theorem unknown_corridors_first_witness:
  "map name (corridors (optimizeShoppingPath asciiLower exampleIndex [str ''bread'', str ''green tea''])) =
     [str ''Gang 7'', str ''Gang 2''] \<and>
   distanceOf (str ''Gang 7'') = Undefined \<and> distanceOf (str ''Gang 2'') = Num 3 \<and>
   (0::nat) < 1"
proof -
  let ?cs = "corridors (optimizeShoppingPath asciiLower exampleIndex [str ''bread'', str ''green tea''])"
  have n: "map name ?cs = [str ''Gang 7'', str ''Gang 2'']" by code_simp
  have u: "distanceOf (str ''Gang 7'') = Undefined" by code_simp
  have k: "distanceOf (str ''Gang 2'') = Num 3" by code_simp
  have len: "length ?cs = 2"
    using arg_cong [OF n, of length] by simp
  have "map name ?cs ! 0 = name (?cs ! 0)" and "map name ?cs ! Suc 0 = name (?cs ! Suc 0)"
    using len by simp_all
  then have n0: "name (?cs ! 0) = str ''Gang 7''" and n1: "name (?cs ! Suc 0) = str ''Gang 2''"
    by (simp_all add: n)
  have plain: "\<forall>c \<in> set ?cs. distanceOf (name c) \<noteq> Inherited"
  proof
    fix c assume "c \<in> set ?cs"
    then have "name c \<in> set (map name ?cs)" by simp
    then have "name c = str ''Gang 7'' \<or> name c = str ''Gang 2''" by (simp add: n)
    then show "distanceOf (name c) \<noteq> Inherited" using u k by auto
  qed
  have "(0::nat) < 1"
    by (rule unknown_corridors_first [OF plain, where i = 0 and j = "Suc 0" and d = 3, simplified One_nat_def [symmetric]])
       (simp_all add: len n0 n1 u k)
  with n u k show ?thesis by (intro conjI)
qed

lemma str_includes_Nil: "str_includes s []"
  by (cases s) simp_all

lemma find_first_empty_query:
  "m \<noteq> [] \<Longrightarrow>
   find (\<lambda>(storedProduct, location). str_includes [] storedProduct \<or> str_includes storedProduct []) m
     = Some (hd m)"
  by (cases m) (auto simp: str_includes_Nil)

lemma findProductLocation_visual_eq:
  "findProductLocation_visual lc m product = fst (findProductLocation lc m product)"
  by (simp add: findProductLocation_visual_def findProductLocation_def Let_def
      split: option.splits prod.splits)

text \<open>
  C10, as amended. When the index has at least one product and the lowercased entry is
  the empty string, \<open>findProductLocation\<close> returns a location: the one stored under the
  empty name when the index has a product with the empty name (the exact match comes
  first), and otherwise the location of the first product of the map, because the
  empty string is included in every stored name. Such an entry is therefore never among
  the items not found. \<open>findProductLocation\<close> of \<open>StoreLayoutVisual.tsx\<close> returns the same
  location.
\<close>

theorem empty_entry_resolution:
  assumes "m \<noteq> []" and "lc item = []"
  shows "findProductLocation lc m item =
           (case map_of m [] of
              Some loc \<Rightarrow> (Some loc, True)
            | None \<Rightarrow> (Some (snd (hd m)), True)) \<and>
         item \<notin> set (notFoundItems (optimizeShoppingPath lc m sl)) \<and>
         findProductLocation_visual lc m item =
           (case map_of m [] of Some loc \<Rightarrow> Some loc | None \<Rightarrow> Some (snd (hd m)))"
proof -
  have fd: "find (\<lambda>(storedProduct, location).
                    str_includes [] storedProduct \<or> str_includes storedProduct []) m = Some (hd m)"
    by (rule find_first_empty_query [OF assms(1)])
  have f: "findProductLocation lc m item =
           (case map_of m [] of
              Some loc \<Rightarrow> (Some loc, True)
            | None \<Rightarrow> (Some (snd (hd m)), True))"
  proof (cases "map_of m []")
    case None
    show ?thesis
      unfolding findProductLocation_def Let_def assms(2) map_has_def map_get_def fd None
      by (simp split: prod.splits)
  next
    case (Some loc)
    show ?thesis
      unfolding findProductLocation_def Let_def assms(2) map_has_def map_get_def Some
      by simp
  qed
  then have "snd (findProductLocation lc m item)"
    by (simp split: option.splits)
  then have n: "item \<notin> set (notFoundItems (optimizeShoppingPath lc m sl))"
    by (simp add: optimize_unfold Let_def)
  have v: "findProductLocation_visual lc m item =
           (case map_of m [] of Some loc \<Rightarrow> Some loc | None \<Rightarrow> Some (snd (hd m)))"
    by (simp add: findProductLocation_visual_eq f split: option.splits)
  from f n v show ?thesis by (intro conjI)
qed

theorem empty_entry_resolution_witness:
  "exampleIndex \<noteq> [] \<and> asciiLower [] = [] \<and>
   findProductLocation asciiLower exampleIndex [] = (Some (snd (hd exampleIndex)), True) \<and>
   [] \<notin> set (notFoundItems (optimizeShoppingPath asciiLower exampleIndex [[]]))"
proof -
  have a: "exampleIndex \<noteq> []" by code_simp
  have b: "asciiLower [] = []" by (simp add: asciiLower_def)
  have c: "map_of exampleIndex [] = None" by code_simp
  from empty_entry_resolution [where lc = asciiLower and m = exampleIndex and item = "[]" and sl = "[[]]"]
    a b c show ?thesis by simp
qed

text \<open>
  C10 as stated fails on an index with an empty product name that is not the first
  product: the entry resolves to that product (in \<open>Gang 2\<close>), not to the first product
  of the map (in \<open>Gang 1\<close>).
\<close>

theorem empty_entry_not_first_product:
  "newStoreOptimizer asciiLower emptyNameStore = Inr emptyNameIndex \<and>
   emptyNameIndex \<noteq> [] \<and> asciiLower [] = [] \<and>
   map_option corridor (fst (findProductLocation asciiLower emptyNameIndex [])) = Some (str ''Gang 2'') \<and>
   corridor (snd (hd emptyNameIndex)) = str ''Gang 1''"
  by code_simp

lemma exitPoint_corridorPath: "exitPoint (corridorPath ci ep c) \<noteq> entryPoint (corridorPath ci ep c)"
  by (simp add: corridorPath_def Let_def)

lemma exitPoint_opposite:
  "c \<in> set (corridors (optimizeShoppingPath lc m sl)) \<Longrightarrow> exitPoint c \<noteq> entryPoint c"
  by (auto simp: optimize_unfold Let_def exitPoint_corridorPath)

lemma exitPoint_opposite_visual:
  assumes "v \<in> set (optimizeShoppingPath_visual lc m sl)"
  shows "vexitPoint v \<noteq> ventryPoint v"
proof -
  from assms obtain e :: bool where
    "ventryPoint v = (if e then East else West)" and "vexitPoint v = (if e then West else East)"
    unfolding optimizeShoppingPath_visual_def Let_def by fastforce
  then show ?thesis by (cases e) simp_all
qed

text \<open>
  C3. A visit whose matched items are all at one end of the corridor is to leave where
  it entered, and only a corridor that is walked through is left at the other end. The
  code leaves at the other end always: with milk alone on the list, the one matched
  item of \<open>Gang 1\<close> is at the east end (one item counted for the east entrance, none
  for the west), and the visit enters at the east and leaves at the west, in both
  optimizers.
\<close>

theorem one_sided_visit_exits_opposite:
  "map (\<lambda>c. (name c, entryPoint c, exitPoint c, map (\<lambda>i. loc_position (item_location i)) (items c)))
       (corridors (optimizeShoppingPath asciiLower exampleIndex [str ''milk''])) =
     [(str ''Gang 1'', East, West, [str ''E''])] \<and>
   optimizeShoppingPath_visual asciiLower exampleIndex_visual [str ''milk''] =
     [\<lparr>vname = str ''Gang 1'', ventryPoint = East, vexitPoint = West\<rparr>] \<and>
   newStoreOptimizer asciiLower exampleStore = Inr exampleIndex \<and>
   buildProductLocationMap asciiLower exampleStore [] = Inr exampleIndex_visual"
  by code_simp

section \<open>The edit distance\<close>

lemma levenshtein_Nil2: "levenshtein xs [] = length xs"
  by (cases xs) simp_all

lemma min3_perm:
  fixes A B C D E F G H I :: nat
  shows "min (min (min (min A B) C) (min (min D E) F)) (min (min G H) I) =
         min (min (min (min A D) G) (min (min B E) H)) (min (min C F) I)"
  by (rule antisym) (simp_all add: min_le_iff_disj)

lemma min9:
  fixes a1 a2 a3 a4 a5 a6 a7 a8 a9 c d e :: nat
  shows "min (min (min (min (a1 + e) (a2 + e)) (a3 + c) + e)
                  (min (min (a4 + e) (a5 + e)) (a6 + c) + e))
             (min (min (a7 + e) (a8 + e)) (a9 + c) + d) =
         min (min (min (min (a1 + e) (a4 + e)) (a7 + d) + e)
                  (min (min (a2 + e) (a5 + e)) (a8 + d) + e))
             (min (min (a3 + e) (a6 + e)) (a9 + d) + c)"
proof -
  have l: "min (min (min (min (a1 + e) (a2 + e)) (a3 + c) + e)
                  (min (min (a4 + e) (a5 + e)) (a6 + c) + e))
             (min (min (a7 + e) (a8 + e)) (a9 + c) + d) =
        min (min (min (min (a1 + e + e) (a2 + e + e)) (a3 + c + e))
                 (min (min (a4 + e + e) (a5 + e + e)) (a6 + c + e)))
            (min (min (a7 + e + d) (a8 + e + d)) (a9 + c + d))"
    by (simp only: min_add_distrib_left)
  have r: "min (min (min (min (a1 + e) (a4 + e)) (a7 + d) + e)
                  (min (min (a2 + e) (a5 + e)) (a8 + d) + e))
             (min (min (a3 + e) (a6 + e)) (a9 + d) + c) =
        min (min (min (min (a1 + e + e) (a4 + e + e)) (a7 + d + e))
                 (min (min (a2 + e + e) (a5 + e + e)) (a8 + d + e)))
            (min (min (a3 + e + c) (a6 + e + c)) (a9 + d + c))"
    by (simp only: min_add_distrib_left)
  have e1: "a3 + c + e = a3 + e + c" "a6 + c + e = a6 + e + c" "a7 + e + d = a7 + d + e"
    "a8 + e + d = a8 + d + e" "a9 + c + d = a9 + d + c"
    by simp_all
  show ?thesis
    unfolding l r e1 by (rule min3_perm)
qed

lemma levenshtein_single_snoc:
  "levenshtein [x] (ys @ [y]) =
     min (min (length ys + 1 + 1) (levenshtein [x] ys + 1)) (length ys + (if x = y then 0 else 1))"
proof (induction ys)
  case Nil
  then show ?case by simp
next
  case (Cons z ys)
  then show ?case by (simp add: min_def)
qed

lemma levenshtein_snoc_single:
  "levenshtein (xs @ [x]) [y] =
     min (min (levenshtein xs [y] + 1) (length xs + 1 + 1)) (length xs + (if x = y then 0 else 1))"
proof (induction xs)
  case Nil
  then show ?case by simp
next
  case (Cons z xs)
  then show ?case by (simp add: min_def levenshtein_Nil2)
qed

lemma levenshtein_snoc:
  "levenshtein (xs @ [x]) (ys @ [y]) =
     min (min (levenshtein xs (ys @ [y]) + 1) (levenshtein (xs @ [x]) ys + 1))
         (levenshtein xs ys + (if x = y then 0 else 1))"
proof (induction xs ys rule: levenshtein.induct)
  case (1 ys)
  show ?case using levenshtein_single_snoc [of x ys y] by simp
next
  case (2 v va)
  show ?case using levenshtein_snoc_single [of "v # va" x y]
    by (simp add: levenshtein_Nil2)
next
  case (3 x' xs y' ys)
  define c :: nat where "c = (if x = y then 0 else 1)"
  define d :: nat where "d = (if x' = y' then 0 else 1)"
  note ih = "3.IH" [folded c_def]
  have l: "levenshtein ((x' # xs) @ [x]) ((y' # ys) @ [y]) =
        min (min (levenshtein (xs @ [x]) ((y' # ys) @ [y]) + 1)
                 (levenshtein ((x' # xs) @ [x]) (ys @ [y]) + 1))
            (levenshtein (xs @ [x]) (ys @ [y]) + d)"
    by (simp add: d_def)
  have r1: "levenshtein (x' # xs) ((y' # ys) @ [y]) =
        min (min (levenshtein xs ((y' # ys) @ [y]) + 1) (levenshtein (x' # xs) (ys @ [y]) + 1))
            (levenshtein xs (ys @ [y]) + d)"
    by (simp add: d_def)
  have r2: "levenshtein ((x' # xs) @ [x]) (y' # ys) =
        min (min (levenshtein (xs @ [x]) (y' # ys) + 1) (levenshtein ((x' # xs) @ [x]) ys + 1))
            (levenshtein (xs @ [x]) ys + d)"
    by (simp add: d_def)
  have r3: "levenshtein (x' # xs) (y' # ys) =
        min (min (levenshtein xs (y' # ys) + 1) (levenshtein (x' # xs) ys + 1))
            (levenshtein xs ys + d)"
    by (simp add: d_def)
  show ?case
    unfolding c_def [symmetric]
    by (subst l, subst r1, subst r2, subst r3, subst ih(1), subst ih(2), subst ih(3)) (rule min9)
qed

lemma prefixDistance_0_left: "j \<le> length b \<Longrightarrow> prefixDistance a b 0 j = j"
  by (simp add: prefixDistance_def)

lemma prefixDistance_0_right: "i \<le> length a \<Longrightarrow> prefixDistance a b i 0 = i"
  by (simp add: prefixDistance_def levenshtein_Nil2)

lemma prefixDistance_Suc:
  assumes "i < length a" and "j < length b"
  shows "prefixDistance a b (Suc i) (Suc j) =
         min (min (prefixDistance a b i (Suc j) + 1) (prefixDistance a b (Suc i) j + 1))
             (prefixDistance a b i j + (if a ! i = b ! j then 0 else 1))"
  using assms
  by (simp only: prefixDistance_def take_Suc_conv_app_nth levenshtein_snoc)

lemma prefixDistance_full: "prefixDistance a b (length a) (length b) = levenshtein a b"
  by (simp add: prefixDistance_def)

lemma matrix_get_set:
  assumes "wf_matrix a b m" and "j \<le> length b" and "i \<le> length a"
  shows "matrix_get (matrix_set m j i v) j' i' =
         (if j' = j \<and> i' = i then v else matrix_get m j' i')"
proof (cases "j' = j")
  case True
  have "j < length m" and "i < length (m ! j)"
    using assms by (simp_all add: wf_matrix_def)
  then show ?thesis using True
    by (simp add: matrix_get_def matrix_set_def nth_list_update)
next
  case False
  then show ?thesis
    by (simp add: matrix_get_def matrix_set_def)
qed

lemma wf_matrix_set:
  assumes "wf_matrix a b m"
  shows "wf_matrix a b (matrix_set m j i v)"
proof -
  have "length ((m[j := (m ! j)[i := v]]) ! k) = length (m ! k)" for k
  proof (cases "j < length m")
    case True
    then show ?thesis by (cases "k = j") simp_all
  next
    case False
    then show ?thesis by (simp add: list_update_beyond)
  qed
  then show ?thesis
    using assms by (simp add: wf_matrix_def matrix_set_def)
qed

lemma lev_inv_init:
  assumes "a \<noteq> []" and "b \<noteq> []"
  shows "lev_inv a b
           (fold (\<lambda>j m. matrix_set m j 0 j) [0..<length b + 1]
              (fold (\<lambda>i m. matrix_set m 0 i i) [0..<length a + 1]
                 (replicate (length b + 1) (replicate (length a + 1) 0))))
           1 1"
proof -
  define m0 where "m0 = replicate (length b + 1) (replicate (length a + 1) (0::nat))"
  let ?f = "\<lambda>i m. matrix_set m 0 i i"
  let ?g = "\<lambda>j m. matrix_set m j 0 j"
  have "m0 ! j = replicate (length a + 1) 0" if "j \<le> length b" for j
    unfolding m0_def using that by (intro nth_replicate) simp
  moreover have "length m0 = length b + 1"
    unfolding m0_def by (simp only: length_replicate)
  ultimately have wf0: "wf_matrix a b m0"
    unfolding wf_matrix_def by simp
  have first: "n \<le> length a + 1 \<Longrightarrow>
      wf_matrix a b (fold ?f [0..<n] m0) \<and> (\<forall>i < n. matrix_get (fold ?f [0..<n] m0) 0 i = i)" for n
  proof (induction n)
    case 0
    then show ?case using wf0 by simp
  next
    case (Suc n)
    then have ih: "wf_matrix a b (fold ?f [0..<n] m0)"
      "\<forall>i < n. matrix_get (fold ?f [0..<n] m0) 0 i = i"
      by simp_all
    have n: "n \<le> length a" using Suc.prems by simp
    show ?case
      using ih n by (simp add: wf_matrix_set matrix_get_set [OF ih(1)] less_Suc_eq)
  qed
  define m1 where "m1 = fold ?f [0..<length a + 1] m0"
  from first [of "length a + 1"]
  have wf1: "wf_matrix a b m1" and row0: "\<forall>i \<le> length a. matrix_get m1 0 i = i"
    unfolding m1_def by (simp_all add: less_Suc_eq_le)
  have second: "n \<le> length b + 1 \<Longrightarrow>
      wf_matrix a b (fold ?g [0..<n] m1) \<and>
      (\<forall>i \<le> length a. matrix_get (fold ?g [0..<n] m1) 0 i = i) \<and>
      (\<forall>j < n. matrix_get (fold ?g [0..<n] m1) j 0 = j)" for n
  proof (induction n)
    case 0
    then show ?case using wf1 row0 by simp
  next
    case (Suc n)
    then have ih: "wf_matrix a b (fold ?g [0..<n] m1)"
      "\<forall>i \<le> length a. matrix_get (fold ?g [0..<n] m1) 0 i = i"
      "\<forall>j < n. matrix_get (fold ?g [0..<n] m1) j 0 = j"
      by simp_all
    have n: "n \<le> length b" using Suc.prems by simp
    show ?case
      using ih n by (auto simp: wf_matrix_set matrix_get_set [OF ih(1)] less_Suc_eq)
  qed
  define m2 where "m2 = fold ?g [0..<length b + 1] m1"
  from second [of "length b + 1"]
  have wf2: "wf_matrix a b m2" and row0': "\<forall>i \<le> length a. matrix_get m2 0 i = i"
    and col0: "\<forall>j \<le> length b. matrix_get m2 j 0 = j"
    unfolding m2_def by (simp_all add: less_Suc_eq_le)
  have "lev_inv a b m2 1 1"
    unfolding lev_inv_def
    using wf2 row0' col0
    by (auto simp: prefixDistance_0_left prefixDistance_0_right)
  then show ?thesis
    unfolding m2_def m1_def m0_def .
qed

lemma lev_inv_cell:
  assumes inv: "lev_inv a b m j i" and j: "1 \<le> j" "j \<le> length b" and i: "1 \<le> i" "i \<le> length a"
  shows "lev_inv a b (levCell a b j m i) j (Suc i)"
proof -
  from inv have wf: "wf_matrix a b m"
    and col0: "\<forall>j \<le> length b. matrix_get m j 0 = j"
    and rows: "\<And>j' i'. j' < j \<Longrightarrow> j' \<le> length b \<Longrightarrow> i' \<le> length a \<Longrightarrow>
                 matrix_get m j' i' = prefixDistance a b i' j'"
    and cols: "\<And>i'. i' < i \<Longrightarrow> i' \<le> length a \<Longrightarrow>  matrix_get m j i' = prefixDistance a b i' j"
    using j by (auto simp: lev_inv_def)
  obtain i0 j0 where ij: "i = Suc i0" "j = Suc j0"
    using i(1) j(1) by (metis One_nat_def Suc_le_D)
  have v: "min (min (matrix_get m j (i - 1) + 1) (matrix_get m (j - 1) i + 1))
               (matrix_get m (j - 1) (i - 1) + (if a ! (i - 1) = b ! (j - 1) then 0 else 1)) =
           prefixDistance a b i j"
    using ij i j cols [of i0] rows [of j0 i] rows [of j0 i0]
    by (simp add: prefixDistance_Suc)
  have cell: "levCell a b j m i = matrix_set m j i (prefixDistance a b i j)"
    unfolding levCell_def Let_def v ..
  show ?thesis
    unfolding lev_inv_def cell
    using wf col0 rows cols i j
    by (auto simp: wf_matrix_set matrix_get_set [OF wf] less_Suc_eq)
qed

lemma lev_inv_row:
  assumes inv: "lev_inv a b m j 1" and j: "1 \<le> j" "j \<le> length b"
  shows "lev_inv a b (levRow a b j m) (Suc j) 1"
proof -
  have "n \<le> length a \<Longrightarrow> lev_inv a b (fold (\<lambda>i m'. levCell a b j m' i) [1..<Suc n] m) j (Suc n)" for n
  proof (induction n)
    case 0
    then show ?case using inv by simp
  next
    case (Suc n)
    then have "lev_inv a b (fold (\<lambda>i m'. levCell a b j m' i) [1..<Suc n] m) j (Suc n)"
      by simp
    from lev_inv_cell [OF this j] Suc.prems show ?case
      by simp
  qed
  from this [of "length a"]
  have full: "lev_inv a b (levRow a b j m) j (Suc (length a))"
    by (simp add: levRow_def)
  from full have wf: "wf_matrix a b (levRow a b j m)"
    and col0: "\<forall>k \<le> length b. matrix_get (levRow a b j m) k 0 = k"
    and rows: "\<And>j' i'. j' < j \<Longrightarrow> j' \<le> length b \<Longrightarrow> i' \<le> length a \<Longrightarrow>
                 matrix_get (levRow a b j m) j' i' = prefixDistance a b i' j'"
    and cols: "\<And>i'. i' \<le> length a \<Longrightarrow> matrix_get (levRow a b j m) j i' = prefixDistance a b i' j"
    using j by (auto simp: lev_inv_def)
  have "matrix_get (levRow a b j m) j' i' = prefixDistance a b i' j'"
    if "j' < Suc j" "j' \<le> length b" "i' \<le> length a" for j' i'
  proof (cases "j' = j")
    case True
    then show ?thesis using cols that by simp
  next
    case False
    then show ?thesis using rows that by simp
  qed
  moreover have "matrix_get (levRow a b j m) (Suc j) i' = prefixDistance a b i' (Suc j)"
    if "i' < 1" "Suc j \<le> length b" for i'
    using that col0 by (simp add: prefixDistance_0_left)
  ultimately show ?thesis
    unfolding lev_inv_def using wf col0 by blast
qed

lemma lev_inv_rows:
  assumes "lev_inv a b m 1 1" and "n \<le> length b"
  shows "lev_inv a b (fold (levRow a b) [1..<Suc n] m) (Suc n) 1"
  using assms(2)
proof (induction n)
  case 0
  then show ?case using assms(1) by simp
next
  case (Suc n)
  then have "lev_inv a b (fold (levRow a b) [1..<Suc n] m) (Suc n) 1"
    by simp
  from lev_inv_row [OF this] Suc.prems show ?case
    by simp
qed

lemma calculateLevenshteinDistance_correct:
  "calculateLevenshteinDistance a b = levenshtein a b"
proof (cases "a = [] \<or> b = []")
  case True
  then show ?thesis
    by (auto simp: calculateLevenshteinDistance_def levenshtein_Nil2)
next
  case False
  then have ne: "a \<noteq> []" "b \<noteq> []" by simp_all
  let ?m2 = "fold (\<lambda>j m. matrix_set m j 0 j) [0..<length b + 1]
              (fold (\<lambda>i m. matrix_set m 0 i i) [0..<length a + 1]
                 (replicate (length b + 1) (replicate (length a + 1) 0)))"
  have "lev_inv a b (fold (levRow a b) [1..<Suc (length b)] ?m2) (Suc (length b)) 1"
    by (rule lev_inv_rows [OF lev_inv_init [OF ne]]) simp
  then have "matrix_get (fold (levRow a b) [1..<Suc (length b)] ?m2) (length b) (length a) =
             prefixDistance a b (length a) (length b)"
    by (simp add: lev_inv_def)
  then show ?thesis
    using ne by (simp add: calculateLevenshteinDistance_def Let_def prefixDistance_full)
qed

text \<open>
  C7. The matrix computation of \<open>calculateLevenshteinDistance\<close> returns, for all
  strings, the Levenshtein distance of the recursive definition, in which a deletion,
  an insertion and a substitution cost 1 and a match costs nothing.
\<close>

theorem levenshtein_refinement:
  "calculateLevenshteinDistance a b = levenshtein a b"
  by (rule calculateLevenshteinDistance_correct)

theorem levenshtein_refinement_witness:
  "calculateLevenshteinDistance ''flaw'' ''lawn'' = levenshtein ''flaw'' ''lawn'' \<and>
   levenshtein ''flaw'' ''lawn'' = 2"
proof -
  have "levenshtein ''flaw'' ''lawn'' = 2" by code_simp
  with levenshtein_refinement [of "''flaw''" "''lawn''"] show ?thesis by simp
qed

section \<open>The normalization\<close>

lemma isKept_not_mark: "isKept c \<Longrightarrow> \<not> isCombiningMark c"
  by (auto simp: isKept_def isCombiningMark_def isWhiteSpace_def)

text \<open>
  C8. Normalization is idempotent: normalizing a normalized string changes nothing. The
  two built-ins are parameters; what is used of them are three facts of Unicode. Lower
  casing leaves a string of lower-case letters, digits and white space as it is; the
  canonical decomposition leaves such a string as it is when it has neither of the two
  quad spaces \<open>U+2000\<close> and \<open>U+2001\<close> (the only code points of the class
  \<open>[a-z0-9\s]\<close> with a canonical decomposition, to \<open>U+2002\<close> and \<open>U+2003\<close>); and a
  decomposed string has neither of the two.
\<close>

theorem normalizeString_idempotent:
  assumes lower_fixes: "\<And>t. \<forall>c \<in> set t. isKept c \<Longrightarrow> lc t = t"
    and nfd_fixes: "\<And>t. \<forall>c \<in> set t. isKept c \<and> c \<noteq> 0x2000 \<and> c \<noteq> 0x2001 \<Longrightarrow> nfd t = t"
    and nfd_no_quad: "\<And>t. 0x2000 \<notin> set (nfd t) \<and> 0x2001 \<notin> set (nfd t)"
  shows "normalizeString lc nfd (normalizeString lc nfd s) = normalizeString lc nfd s"
proof -
  define out where "out = normalizeString lc nfd s"
  have sub: "set out \<subseteq> set (nfd (lc s))"
    by (auto simp: out_def normalizeString_def)
  have kept: "\<forall>c \<in> set out. isKept c"
    by (auto simp: out_def normalizeString_def)
  have noquad: "\<forall>c \<in> set out. c \<noteq> 0x2000 \<and> c \<noteq> 0x2001"
    using sub nfd_no_quad [of "lc s"] by auto
  have l: "lc out = out"
    using kept by (rule lower_fixes)
  have n: "nfd out = out"
    using kept noquad by (intro nfd_fixes) simp
  have f1: "filter (\<lambda>c. \<not> isCombiningMark c) out = out"
    using kept by (simp add: filter_id_conv isKept_not_mark)
  have f2: "filter isKept out = out"
    using kept by (simp add: filter_id_conv)
  have "normalizeString lc nfd out = out"
    by (simp add: normalizeString_def l n f1 f2)
  then show ?thesis by (simp only: out_def)
qed

lemma isKept_cases:
  "isKept c \<Longrightarrow> (0x30 \<le> c \<and> c \<le> 0x39) \<or> (0x61 \<le> c \<and> c \<le> 0x7A) \<or> c < 0x30 \<or> c = 0xA0 \<or> 0x1680 \<le> c"
  by (auto simp: isKept_def isWhiteSpace_def)

lemma asciiLowerUnit_kept: "isKept c \<Longrightarrow> asciiLowerUnit c = c"
  using isKept_cases [of c] by (auto simp: asciiLowerUnit_def)

lemma latinNFDUnit_kept: "isKept c \<Longrightarrow> c \<noteq> 0x2000 \<Longrightarrow> c \<noteq> 0x2001 \<Longrightarrow> latinNFDUnit c = [c]"
  using isKept_cases [of c] by (auto simp: latinNFDUnit_def)

lemma asciiLower_fixes: "\<forall>c \<in> set t. isKept c \<Longrightarrow> asciiLower t = t"
  by (induction t) (simp_all add: asciiLower_def asciiLowerUnit_kept)

lemma latinNFD_fixes:
  "\<forall>c \<in> set t. isKept c \<and> c \<noteq> 0x2000 \<and> c \<noteq> 0x2001 \<Longrightarrow> latinNFD t = t"
  by (induction t) (simp_all add: latinNFD_def latinNFDUnit_kept)

lemma latinNFDUnit_no_quad: "0x2000 \<notin> set (latinNFDUnit c) \<and> 0x2001 \<notin> set (latinNFDUnit c)"
  by (simp add: latinNFDUnit_def)

lemma latinNFD_no_quad: "0x2000 \<notin> set (latinNFD t) \<and> 0x2001 \<notin> set (latinNFD t)"
  using latinNFDUnit_no_quad by (induction t) (simp_all add: latinNFD_def)

theorem normalizeString_idempotent_witness:
  "normalizeString asciiLower latinNFD
     (normalizeString asciiLower latinNFD (str ''Caf'' @ [0xE9, 0x2000] @ str ''No. 12'')) =
   normalizeString asciiLower latinNFD (str ''Caf'' @ [0xE9, 0x2000] @ str ''No. 12'') \<and>
   normalizeString asciiLower latinNFD (str ''Caf'' @ [0xE9, 0x2000] @ str ''No. 12'') =
     str ''cafe'' @ [0x2002] @ str ''no 12''"
proof -
  have "normalizeString asciiLower latinNFD (str ''Caf'' @ [0xE9, 0x2000] @ str ''No. 12'') =
     str ''cafe'' @ [0x2002] @ str ''no 12''"
    by (simp add: normalizeString_def asciiLower_def asciiLowerUnit_def latinNFD_def
        latinNFDUnit_def isKept_def isWhiteSpace_def isCombiningMark_def str_def)
  moreover have "normalizeString asciiLower latinNFD
     (normalizeString asciiLower latinNFD (str ''Caf'' @ [0xE9, 0x2000] @ str ''No. 12'')) =
   normalizeString asciiLower latinNFD (str ''Caf'' @ [0xE9, 0x2000] @ str ''No. 12'')"
    by (rule normalizeString_idempotent [OF asciiLower_fixes latinNFD_fixes latinNFD_no_quad])
  ultimately show ?thesis by (intro conjI)
qed

section \<open>The rounding of the numbers\<close>

lemma roundTiesToEven_bounds: "\<lfloor>y\<rfloor> \<le> roundTiesToEven y \<and> roundTiesToEven y \<le> \<lfloor>y\<rfloor> + 1"
  by (simp add: roundTiesToEven_def Let_def)

lemma roundTiesToEven_pos: "1 \<le> y \<Longrightarrow> 1 \<le> roundTiesToEven y"
proof -
  assume "1 \<le> y"
  then have "1 \<le> \<lfloor>y\<rfloor>" by simp
  with roundTiesToEven_bounds [of y] show ?thesis by linarith
qed

lemma roundTiesToEven_nonpos: "y \<le> 0 \<Longrightarrow> roundTiesToEven y \<le> 0"
proof -
  assume y: "y \<le> 0"
  show ?thesis
  proof (cases "\<lfloor>y\<rfloor> = 0")
    case True
    then have "0 \<le> y" by (metis of_int_0 of_int_floor_le)
    with y have "y = 0" by simp
    then show ?thesis by (simp add: roundTiesToEven_def)
  next
    case False
    moreover from y have "\<lfloor>y\<rfloor> \<le> 0" by (simp add: floor_le_zero)
    ultimately have "\<lfloor>y\<rfloor> + 1 \<le> 0" by linarith
    with roundTiesToEven_bounds [of y] show ?thesis by linarith
  qed
qed

lemma ulpExponent_ge: "- 1074 \<le> ulpExponent x"
  by (simp add: ulpExponent_def)

lemma two_powr_int_nonneg: "0 \<le> k \<Longrightarrow> (2::real) powr of_int k = of_int (2 ^ nat k)"
  by (simp add: powr_int)

text \<open>Every double is an integer multiple of the smallest subnormal.\<close>

lemma double_multiple: "\<exists>m::int. double x = of_int m * 2 powr (- 1074)"
proof (cases "x = 0")
  case True
  then have "double x = of_int 0 * 2 powr (- 1074)" by (simp add: double_def)
  then show ?thesis by blast
next
  case False
  let ?e = "ulpExponent x"
  let ?r = "roundTiesToEven (x / 2 powr of_int ?e)"
  have "0 \<le> ?e + 1074" using ulpExponent_ge [of x] by simp
  then have p: "(2::real) powr of_int (?e + 1074) = of_int (2 ^ nat (?e + 1074))"
    by (rule two_powr_int_nonneg)
  have "(2::real) powr of_int ?e = 2 powr (of_int (?e + 1074) + (- 1074))"
    by simp
  also have "\<dots> = 2 powr of_int (?e + 1074) * 2 powr (- 1074)"
    by (rule powr_add)
  also have "\<dots> = of_int (2 ^ nat (?e + 1074)) * 2 powr (- 1074)"
    by (simp only: p)
  finally have e: "(2::real) powr of_int ?e = of_int (2 ^ nat (?e + 1074)) * 2 powr (- 1074)" .
  have "double x = of_int ?r * 2 powr of_int ?e"
    using False by (simp add: double_def)
  also have "\<dots> = of_int ?r * (of_int (2 ^ nat (?e + 1074)) * 2 powr (- 1074))"
    by (subst e) (rule refl)
  also have "\<dots> = of_int (?r * 2 ^ nat (?e + 1074)) * 2 powr (- 1074)"
    by (simp only: of_int_mult mult.assoc)
  finally show ?thesis by blast
qed

lemma double_pos:
  assumes "2 powr (- 1074) \<le> d"
  shows "0 < double d"
proof -
  have d: "0 < d" using assms by (smt (verit) powr_gt_zero)
  let ?e = "ulpExponent d"
  have "2 powr of_int ?e \<le> d"
  proof (cases "- 1022 \<le> \<lfloor>log 2 d\<rfloor>")
    case True
    then have "?e = \<lfloor>log 2 d\<rfloor> - 52" using d by (simp add: ulpExponent_def)
    then have "(2::real) powr of_int ?e \<le> 2 powr of_int \<lfloor>log 2 d\<rfloor>"
      by (simp add: powr_mono)
    also have "\<dots> \<le> 2 powr (log 2 d)"
      by (intro powr_mono) simp_all
    also have "\<dots> = d" using d by simp
    finally show ?thesis .
  next
    case False
    then have "?e = - 1074" using d by (simp add: ulpExponent_def)
    then show ?thesis using assms by simp
  qed
  then have "1 \<le> d / 2 powr of_int ?e"
    by (simp add: le_divide_eq)
  then have "1 \<le> roundTiesToEven (d / 2 powr of_int ?e)"
    by (rule roundTiesToEven_pos)
  then have "0 < of_int (roundTiesToEven (d / 2 powr of_int ?e)) * (2::real) powr of_int ?e"
    by (simp add: zero_less_mult_iff)
  then show ?thesis using d by (simp add: double_def)
qed

lemma double_nonpos:
  assumes "d \<le> 0"
  shows "double d \<le> 0"
proof (cases "d = 0")
  case True
  then show ?thesis by (simp add: double_def)
next
  case False
  let ?e = "ulpExponent d"
  have "d / 2 powr of_int ?e \<le> 0"
    using assms by (simp add: divide_le_0_iff)
  then have "roundTiesToEven (d / 2 powr of_int ?e) \<le> 0"
    by (rule roundTiesToEven_nonpos)
  then have "of_int (roundTiesToEven (d / 2 powr of_int ?e)) * (2::real) powr of_int ?e \<le> 0"
    by (simp add: mult_le_0_iff)
  then show ?thesis using False by (simp add: double_def)
qed

text \<open>The sign of the rounded difference of two doubles is the sign of the difference.\<close>

lemma double_difference_sign: "double (double y - double x) \<le> 0 \<longleftrightarrow> double y \<le> double x"
proof
  assume l: "double (double y - double x) \<le> 0"
  show "double y \<le> double x"
  proof (rule ccontr)
    assume "\<not> double y \<le> double x"
    then have gt: "double x < double y" by simp
    obtain m n :: int where m: "double x = of_int m * 2 powr (- 1074)"
      and n: "double y = of_int n * 2 powr (- 1074)"
      using double_multiple [of x] double_multiple [of y] by blast
    from gt m n have "m < n" by (simp add: mult_less_cancel_right)
    then have "1 \<le> n - m" by simp
    then have "(1::real) \<le> of_int (n - m)" by (simp only: of_int_1_le_iff)
    then have "1 * 2 powr (- 1074) \<le> of_int (n - m) * (2::real) powr (- 1074)"
      by (intro mult_right_mono) simp_all
    then have "2 powr (- 1074) \<le> double y - double x"
      by (simp add: m n left_diff_distrib)
    from double_pos [OF this] l show False by simp
  qed
next
  assume "double y \<le> double x"
  then have "double y - double x \<le> 0" by simp
  then show "double (double y - double x) \<le> 0" by (rule double_nonpos)
qed

text \<open>The number nearest to a real number of a known binade.\<close>

lemma ulpExponent_eq:
  assumes "2 powr of_int k \<le> \<bar>x\<bar>" and "\<bar>x\<bar> < 2 powr (of_int k + 1)"
  shows "ulpExponent x = max k (- 1022) - 52"
proof -
  have "0 < \<bar>x\<bar>" using assms(1) by (smt (verit) powr_gt_zero)
  then have "\<lfloor>log 2 \<bar>x\<bar>\<rfloor> = k"
    using assms by (simp add: floor_log_eq_powr_iff)
  then show ?thesis by (simp add: ulpExponent_def)
qed

lemma two_powr_neg: "(2::real) powr (- real n) = 1 / 2 ^ n"
  by (simp add: powr_minus powr_realpow inverse_eq_divide)

lemma double_fraction:
  assumes "1 / 2 ^ Suc n \<le> x" and "x < 1 / 2 ^ n" and "n < 1022"
  shows "double x = of_int (roundTiesToEven (x * 2 ^ (n + 53))) / 2 ^ (n + 53)"
proof -
  have pos: "0 < x" using assms(1) by (smt (verit) divide_pos_pos zero_less_power)
  have k: "(of_int (- int (Suc n)) :: real) = - real (Suc n)"
    by (simp only: of_int_minus of_int_of_nat_eq)
  have k1: "(of_int (- int (Suc n)) + 1 :: real) = - real n"
    by simp
  have "ulpExponent x = max (- int (Suc n)) (- 1022) - 52"
  proof (rule ulpExponent_eq)
    show "2 powr of_int (- int (Suc n)) \<le> \<bar>x\<bar>"
      using assms(1) pos by (simp only: k two_powr_neg abs_of_pos)
    show "\<bar>x\<bar> < 2 powr (of_int (- int (Suc n)) + 1)"
      using assms(2) pos by (simp only: k1 two_powr_neg abs_of_pos)
  qed
  then have e: "ulpExponent x = - int (n + 53)"
    using assms(3) by simp
  have "(of_int (- int (n + 53)) :: real) = - real (n + 53)"
    by (simp only: of_int_minus of_int_of_nat_eq)
  then have p3: "(2::real) powr of_int (ulpExponent x) = 1 / 2 ^ (n + 53)"
    by (simp only: e two_powr_neg)
  have "double x = of_int (roundTiesToEven (x / 2 powr of_int (ulpExponent x))) * 2 powr of_int (ulpExponent x)"
    using pos by (simp add: double_def)
  also have "\<dots> = of_int (roundTiesToEven (x / (1 / 2 ^ (n + 53)))) * (1 / 2 ^ (n + 53))"
    by (simp only: p3)
  also have "\<dots> = of_int (roundTiesToEven (x * 2 ^ (n + 53))) / 2 ^ (n + 53)"
    by simp
  finally show ?thesis .
qed

lemma double_half:
  "1 / 2 \<le> x \<Longrightarrow> x < 1 \<Longrightarrow>
   double x = of_int (roundTiesToEven (x * 9007199254740992)) / 9007199254740992"
  using double_fraction [of 0 x] by simp

lemma double_quarter:
  "1 / 4 \<le> x \<Longrightarrow> x < 1 / 2 \<Longrightarrow>
   double x = of_int (roundTiesToEven (x * 18014398509481984)) / 18014398509481984"
  using double_fraction [of 1 x] by simp

lemma double_eighth:
  "1 / 8 \<le> x \<Longrightarrow> x < 1 / 4 \<Longrightarrow>
   double x = of_int (roundTiesToEven (x * 36028797018963968)) / 36028797018963968"
  using double_fraction [of 2 x] by simp

lemma double_sixteenth:
  "1 / 16 \<le> x \<Longrightarrow> x < 1 / 8 \<Longrightarrow>
   double x = of_int (roundTiesToEven (x * 72057594037927936)) / 72057594037927936"
  using double_fraction [of 3 x] by simp

lemma double_0: "double 0 = 0"
  by (simp add: double_def)

text \<open>The literals of the matcher.\<close>

lemma double_08: "double 0.8 = 3602879701896397 / 4503599627370496"
  by (subst double_half) (simp_all add: roundTiesToEven_def)

lemma double_07: "double 0.7 = 3152519739159347 / 4503599627370496"
  by (subst double_half) (simp_all add: roundTiesToEven_def)

lemma double_06: "double 0.6 = 5404319552844595 / 9007199254740992"
  by (subst double_half) (simp_all add: roundTiesToEven_def)

lemma double_04: "double 0.4 = 3602879701896397 / 9007199254740992"
  by (subst double_quarter) (simp_all add: roundTiesToEven_def)

lemma double_03: "double 0.3 = 5404319552844595 / 18014398509481984"
  by (subst double_quarter) (simp_all add: roundTiesToEven_def)

lemma double_02: "double 0.2 = 3602879701896397 / 18014398509481984"
  by (subst double_eighth) (simp_all add: roundTiesToEven_def)

lemma threshold_above: "0.2 < double 0.2"
  unfolding double_02 by simp

lemma fsub_sign: "fsub (double y) (double x) \<le> 0 \<longleftrightarrow> double y \<le> double x"
  unfolding fsub_def by (rule double_difference_sign)


section \<open>The scores and the search\<close>



lemma sorted_desc_array_sort:
  fixes xs :: "('a \<times> real) list"
  shows "sorted_wrt (\<lambda>x y. x \<ge> y) (map snd (array_sort (\<lambda>a b. snd b - snd a) xs))"
proof -
  have c: "(\<lambda>a b :: 'a \<times> real. snd b - snd a) = (\<lambda>a b. (- snd a) - (- snd b))"
    by (simp add: fun_eq_iff)
  have "sorted (map (\<lambda>a. - snd a) (array_sort (\<lambda>a b. snd b - snd a) xs))"
    unfolding c by (rule sorted_array_sort_key)
  then show ?thesis
    by (simp add: sorted_wrt_map)
qed

lemma stable_desc_array_sort:
  fixes xs :: "('a \<times> real) list"
  shows "filter (\<lambda>p. snd p = v) (array_sort (\<lambda>a b. snd b - snd a) xs) = filter (\<lambda>p. snd p = v) xs"
proof -
  have c: "(\<lambda>a b :: 'a \<times> real. snd b - snd a) = (\<lambda>a b. (- snd a) - (- snd b))"
    by (simp add: fun_eq_iff)
  have "filter (\<lambda>p. - snd p = - v) (array_sort (\<lambda>a b. snd b - snd a) xs) = filter (\<lambda>p. - snd p = - v) xs"
    unfolding c by (rule stable_array_sort_key)
  then show ?thesis by simp
qed

text \<open>
  The comparator of the search rounds the difference of two scores; the scores are
  numbers, so the rounded difference has the sign of the difference, and the sort is the
  sort by descending score.
\<close>

lemma totalScore_double: "\<exists>r. totalScore lc nfd query item = double r"
  by (auto simp: totalScore_def Let_def fadd_def)

lemma scored_exact:
  "scored lc nfd query allItems =
     array_sort (\<lambda>a b. snd b - snd a)
       (filter (\<lambda>(item, score). score > double 0.2)
          (map (\<lambda>item. (item, totalScore lc nfd query item)) allItems))"
  unfolding scored_def
proof (rule array_sort_cong, intro ballI)
  fix x y :: "GroceryItem \<times> real"
  let ?xs = "filter (\<lambda>(item, score). score > double 0.2)
          (map (\<lambda>item. (item, totalScore lc nfd query item)) allItems)"
  assume "x \<in> set ?xs" and "y \<in> set ?xs"
  then have "snd x = totalScore lc nfd query (fst x)" and "snd y = totalScore lc nfd query (fst y)"
    by auto
  with totalScore_double [of lc nfd query "fst x"] totalScore_double [of lc nfd query "fst y"]
  obtain r s where r: "snd x = double r" and s: "snd y = double s"
    by auto
  show "(fsub (snd y) (snd x) \<le> 0) = (snd y - snd x \<le> 0)"
    unfolding r s by (simp add: fsub_sign)
qed

lemma searchProducts_scored:
  "searchProducts lc nfd query allItems =
     (if trim query = [] then [] else take 20 (map fst (scored lc nfd query allItems)))"
  by (simp only: searchProducts_def scored_def Let_def)

lemma scored_members:
  "p \<in> set (scored lc nfd query allItems) \<Longrightarrow>
   fst p \<in> set allItems \<and> snd p = totalScore lc nfd query (fst p) \<and> snd p > double 0.2"
  by (auto simp: scored_def set_array_sort)

lemma scored_scores:
  "map (totalScore lc nfd query) (map fst (scored lc nfd query allItems)) =
   map snd (scored lc nfd query allItems)"
  using scored_members [of _ lc nfd query allItems] by simp

lemma scored_filter:
  "filter (\<lambda>i. totalScore lc nfd query i = v) (map fst (scored lc nfd query allItems)) =
   (if v > double 0.2 then filter (\<lambda>i. totalScore lc nfd query i = v) allItems else [])"
proof -
  have "filter (\<lambda>i. totalScore lc nfd query i = v) (map fst (scored lc nfd query allItems)) =
        map fst (filter (\<lambda>p. snd p = v) (scored lc nfd query allItems))"
    using scored_members [of _ lc nfd query allItems]
    by (simp add: filter_map comp_def cong: filter_cong)
  also have "\<dots> = map fst (filter (\<lambda>p. snd p = v)
        (filter (\<lambda>(item, score). score > double 0.2) (map (\<lambda>item. (item, totalScore lc nfd query item)) allItems)))"
    by (simp only: scored_exact stable_desc_array_sort)
  also have "\<dots> = (if v > double 0.2 then filter (\<lambda>i. totalScore lc nfd query i = v) allItems else [])"
    by (induction allItems) auto
  finally show ?thesis .
qed

text \<open>
  C6. For every query and list of entries, every entry \<open>searchProducts\<close> returns has a
  combined score above the number \<open>0.2\<close>, and so above 0.2; the returned entries are in
  non-increasing order of score; the returned entries of any one score are a prefix of
  the entries of that score in the input, so equal scores keep their input order; there
  are at most 20 of them; and they are entries of the input. The scores are the numbers
  the code computes, with their rounding.
\<close>

theorem search_results:
  "(\<forall>item \<in> set (searchProducts lc nfd query allItems).
      double 0.2 < totalScore lc nfd query item \<and> 0.2 < totalScore lc nfd query item) \<and>
   sorted_wrt (\<lambda>x y. x \<ge> y) (map (totalScore lc nfd query) (searchProducts lc nfd query allItems)) \<and>
   (\<forall>v. prefix (filter (\<lambda>i. totalScore lc nfd query i = v) (searchProducts lc nfd query allItems))
               (filter (\<lambda>i. totalScore lc nfd query i = v) allItems)) \<and>
   length (searchProducts lc nfd query allItems) \<le> 20 \<and>
   set (searchProducts lc nfd query allItems) \<subseteq> set allItems"
proof (cases "trim query = []")
  case True
  then show ?thesis by (simp add: searchProducts_scored)
next
  case False
  let ?S = "scored lc nfd query allItems"
  have r: "searchProducts lc nfd query allItems = take 20 (map fst ?S)"
    using False by (simp add: searchProducts_scored)
  have sub: "set (take 20 (map fst ?S)) \<subseteq> set (map fst ?S)"
    by (rule set_take_subset)
  have a0: "\<forall>item \<in> set (take 20 (map fst ?S)). double 0.2 < totalScore lc nfd query item"
    using sub scored_members [of _ lc nfd query allItems] by fastforce
  have a: "\<forall>item \<in> set (take 20 (map fst ?S)).
      double 0.2 < totalScore lc nfd query item \<and> 0.2 < totalScore lc nfd query item"
  proof
    fix item assume "item \<in> set (take 20 (map fst ?S))"
    with a0 have "double 0.2 < totalScore lc nfd query item" by blast
    with threshold_above
    show "double 0.2 < totalScore lc nfd query item \<and> 0.2 < totalScore lc nfd query item"
      by (intro conjI) (assumption, rule less_trans)
  qed
  have "sorted_wrt (\<lambda>x y. x \<ge> y) (map (totalScore lc nfd query) (map fst ?S))"
    unfolding scored_scores unfolding scored_exact by (rule sorted_desc_array_sort)
  then have b: "sorted_wrt (\<lambda>x y. x \<ge> y) (map (totalScore lc nfd query) (take 20 (map fst ?S)))"
    unfolding take_map [symmetric] by (rule sorted_wrt_take)
  have c: "prefix (filter (\<lambda>i. totalScore lc nfd query i = v) (take 20 (map fst ?S)))
               (filter (\<lambda>i. totalScore lc nfd query i = v) allItems)" for v
  proof -
    have "prefix (filter (\<lambda>i. totalScore lc nfd query i = v) (take 20 (map fst ?S)))
                 (filter (\<lambda>i. totalScore lc nfd query i = v) (map fst ?S))"
      by (intro filter_mono_prefix take_is_prefix)
    then show ?thesis
      by (simp add: scored_filter split: if_splits)
  qed
  have d: "length (take 20 (map fst ?S)) \<le> 20" by simp
  have e: "set (take 20 (map fst ?S)) \<subseteq> set allItems"
    using sub scored_members [of _ lc nfd query allItems] by fastforce
  show ?thesis
    unfolding r using a b c d e by blast
qed

lemmas normalize_defs = normalizeString_def asciiLower_def asciiLowerUnit_def latinNFD_def
  latinNFDUnit_def isKept_def isWhiteSpace_def isCombiningMark_def str_def

lemmas number_defs = fmul_def fdiv_def fadd_def double_0 double_half double_quarter double_eighth
  double_sixteenth roundTiesToEven_def




lemma score_abc_c:
  "calculateSimilarityScore asciiLower latinNFD (str ''ab c'') (str ''c'') =
     5404319552844595 / 18014398509481984"
proof -
  have nq: "normalizeString asciiLower latinNFD (str ''ab c'') = [97, 98, 32, 99]"
    by (simp add: normalize_defs)
  have nc: "normalizeString asciiLower latinNFD (str ''c'') = [99]"
    by (simp add: normalize_defs)
  have wq: "split_ws [97, 98, 32, 99] = [[97, 98], [99]]"
    by (simp add: split_ws_def isWhiteSpace_def)
  have wc: "split_ws [99] = [[99]]"
    by (simp add: split_ws_def isWhiteSpace_def)
  have lv: "calculateLevenshteinDistance [97, 98, 32, 99] [99::nat] = 3"
    by code_simp
  have v: "fmul (fdiv 1 2) (double 0.6) = 5404319552844595 / 18014398509481984"
    by (simp add: number_defs)
  have w: "fmul (fdiv 1 4) (double 0.4) = 3602879701896397 / 36028797018963968"
    by (simp add: number_defs)
  have "calculateSimilarityScore asciiLower latinNFD (str ''ab c'') (str ''c'') =
          max (fmul (fdiv 1 2) (double 0.6)) (fmul (fdiv 1 4) (double 0.4))"
    by (simp add: calculateSimilarityScore_def Let_def nq nc wq wc lv)
  also have "\<dots> = max (5404319552844595 / 18014398509481984) (3602879701896397 / 36028797018963968)"
    by (simp only: v w)
  also have "\<dots> = 5404319552844595 / 18014398509481984"
    by simp
  finally show ?thesis .
qed

lemma score_abc_ac:
  "calculateSimilarityScore asciiLower latinNFD (str ''ab c'') (str ''a c'') =
     1351079888211149 / 4503599627370496"
proof -
  have nq: "normalizeString asciiLower latinNFD (str ''ab c'') = [97, 98, 32, 99]"
    by (simp add: normalize_defs)
  have nc: "normalizeString asciiLower latinNFD (str ''a c'') = [97, 32, 99]"
    by (simp add: normalize_defs)
  have wq: "split_ws [97, 98, 32, 99] = [[97, 98], [99]]"
    by (simp add: split_ws_def isWhiteSpace_def)
  have wc: "split_ws [97, 32, 99] = [[97], [99]]"
    by (simp add: split_ws_def isWhiteSpace_def)
  have lv: "calculateLevenshteinDistance [97, 98, 32, 99] [97, 32, 99::nat] = 1"
    by code_simp
  have v: "fmul (fdiv 1 2) (double 0.6) = 5404319552844595 / 18014398509481984"
    by (simp add: number_defs)
  have w: "fmul (fdiv 3 4) (double 0.4) = 1351079888211149 / 4503599627370496"
    by (simp add: number_defs)
  have "calculateSimilarityScore asciiLower latinNFD (str ''ab c'') (str ''a c'') =
          max (fmul (fdiv 1 2) (double 0.6)) (fmul (fdiv 3 4) (double 0.4))"
    by (simp add: calculateSimilarityScore_def Let_def nq nc wq wc lv)
  also have "\<dots> = max (5404319552844595 / 18014398509481984) (1351079888211149 / 4503599627370496)"
    by (simp only: v w)
  also have "\<dots> = 1351079888211149 / 4503599627370496"
    by simp
  finally show ?thesis .
qed

lemma score_abc_empty:
  "calculateSimilarityScore asciiLower latinNFD (str ''ab c'') [] = 0"
proof -
  have nq: "normalizeString asciiLower latinNFD (str ''ab c'') = [97, 98, 32, 99]"
    by (simp add: normalize_defs)
  have nc: "normalizeString asciiLower latinNFD [] = []"
    by (simp add: normalize_defs)
  have wq: "split_ws [97, 98, 32, 99] = [[97, 98], [99]]"
    by (simp add: split_ws_def isWhiteSpace_def)
  have wc: "split_ws [] = [[]]"
    by (simp add: split_ws_def)
  have lv: "calculateLevenshteinDistance [97, 98, 32, 99::nat] [] = 4"
    by (simp add: calculateLevenshteinDistance_def)
  have v: "fmul (fdiv 0 2) (double 0.6) = 0"
    by (simp add: number_defs)
  have w: "fmul (fdiv 0 4) (double 0.4) = 0"
    by (simp add: number_defs)
  have "calculateSimilarityScore asciiLower latinNFD (str ''ab c'') [] =
          max (fmul (fdiv 0 2) (double 0.6)) (fmul (fdiv 0 4) (double 0.4))"
    by (simp add: calculateSimilarityScore_def Let_def nq nc wq wc lv)
  also have "\<dots> = 0"
    by (simp only: v w max.idem)
  finally show ?thesis .
qed

lemma total_entryC:
  "totalScore asciiLower latinNFD (str ''ab c'') entryC = 7566047373982433 / 36028797018963968"
proof -
  have a: "fmul (5404319552844595 / 18014398509481984) (double 0.7) =
           7566047373982433 / 36028797018963968"
    by (simp add: number_defs)
  have b: "fmul 0 (double 0.3) = 0"
    by (simp add: number_defs)
  have s: "fadd (7566047373982433 / 36028797018963968) 0 = 7566047373982433 / 36028797018963968"
    by (simp add: number_defs)
  have "totalScore asciiLower latinNFD (str ''ab c'') entryC =
          fadd (fmul (5404319552844595 / 18014398509481984) (double 0.7)) (fmul 0 (double 0.3))"
    by (simp only: totalScore_def Let_def entryC_def GroceryItem.simps score_abc_c score_abc_empty)
  then show ?thesis
    by (simp only: a b s)
qed

lemma total_entryAC:
  "totalScore asciiLower latinNFD (str ''ab c'') entryAC = 3783023686991217 / 18014398509481984"
proof -
  have a: "fmul (1351079888211149 / 4503599627370496) (double 0.7) =
           3783023686991217 / 18014398509481984"
    by (simp add: number_defs)
  have b: "fmul 0 (double 0.3) = 0"
    by (simp add: number_defs)
  have s: "fadd (3783023686991217 / 18014398509481984) 0 = 3783023686991217 / 18014398509481984"
    by (simp add: number_defs)
  have "totalScore asciiLower latinNFD (str ''ab c'') entryAC =
          fadd (fmul (1351079888211149 / 4503599627370496) (double 0.7)) (fmul 0 (double 0.3))"
    by (simp only: totalScore_def Let_def entryAC_def GroceryItem.simps score_abc_ac score_abc_empty)
  then show ?thesis
    by (simp only: a b s)
qed

theorem search_results_witness:
  "searchProducts asciiLower latinNFD (str ''ab c'') [entryC, entryAC] = [entryAC, entryC] \<and>
   map (totalScore asciiLower latinNFD (str ''ab c'')) [entryC, entryAC] =
     [7566047373982433 / 36028797018963968, 3783023686991217 / 18014398509481984] \<and>
   sorted_wrt (\<lambda>x y. x \<ge> y)
     (map (totalScore asciiLower latinNFD (str ''ab c''))
        (searchProducts asciiLower latinNFD (str ''ab c'') [entryC, entryAC])) \<and>
   length (searchProducts asciiLower latinNFD (str ''ab c'') [entryC, entryAC]) \<le> 20"
proof -
  have t: "trim (str ''ab c'') \<noteq> []"
    by (simp add: trim_def str_def isWhiteSpace_def)
  have th: "double 0.2 = 3602879701896397 / 18014398509481984"
    by (rule double_02)
  have "scored asciiLower latinNFD (str ''ab c'') [entryC, entryAC] =
          [(entryAC, 3783023686991217 / 18014398509481984),
           (entryC, 7566047373982433 / 36028797018963968)]"
    unfolding scored_exact th
    by (simp add: total_entryC total_entryAC array_sort_def)
  then have r: "searchProducts asciiLower latinNFD (str ''ab c'') [entryC, entryAC] = [entryAC, entryC]"
    using t by (simp add: searchProducts_scored)
  have s: "map (totalScore asciiLower latinNFD (str ''ab c'')) [entryC, entryAC] =
     [7566047373982433 / 36028797018963968, 3783023686991217 / 18014398509481984]"
    by (simp add: total_entryC total_entryAC)
  from search_results [of asciiLower latinNFD "str ''ab c''" "[entryC, entryAC]"]
  have "sorted_wrt (\<lambda>x y. x \<ge> y)
     (map (totalScore asciiLower latinNFD (str ''ab c''))
        (searchProducts asciiLower latinNFD (str ''ab c'') [entryC, entryAC])) \<and>
     length (searchProducts asciiLower latinNFD (str ''ab c'') [entryC, entryAC]) \<le> 20"
    by blast
  with r s show ?thesis by (intro conjI) blast+
qed

end
